theory Spec2Isabelle
  imports Main "HOL-Library.Sublist" "HOL-Library.Multiset"
begin

section \<open>Python strings\<close>

text \<open>
  A Python \<open>str\<close> is a sequence of Unicode code points; a code point is a natural number.
  Literals of the source are written \<open>str ''...''\<close>; the two markers of the explanation
  format lie outside ASCII and are given by their code points.
\<close>

type_synonym pystr = "nat list"

abbreviation str :: "string \<Rightarrow> pystr" where
  "str s \<equiv> map of_char s"

definition SPACE :: nat where
  "SPACE = 32"

definition HYPHEN :: nat where
  "HYPHEN = 45"

definition NEWLINE :: nat where
  "NEWLINE = 10"

definition ASTERISK :: nat where
  "ASTERISK = 42"

definition CROSS_MARK :: pystr where
  "CROSS_MARK = [10060]"

definition CHECK_MARK :: pystr where
  "CHECK_MARK = [9989]"

text \<open>
  \<open>str.isspace\<close> of one code point, which is also what \<open>str.strip()\<close> removes and what
  \<open>\s\<close> matches in a \<open>str\<close> pattern: the ASCII controls 9..13 and 28..31, the space,
  and the Unicode white space beyond ASCII.
\<close>

definition py_isspace :: "nat \<Rightarrow> bool" where
  "py_isspace c \<longleftrightarrow>
     (9 \<le> c \<and> c \<le> 13) \<or> (28 \<le> c \<and> c \<le> 32) \<or> c = 133 \<or> c = 160 \<or> c = 5760 \<or>
     (8192 \<le> c \<and> c \<le> 8202) \<or> c = 8232 \<or> c = 8233 \<or> c = 8239 \<or> c = 8287 \<or> c = 12288"

definition py_strip :: "pystr \<Rightarrow> pystr" where
  "py_strip s = rev (dropWhile py_isspace (rev (dropWhile py_isspace s)))"

text \<open>
  \<open>str.lower()\<close> is library code: it maps through the Unicode case table of the
  interpreter and treats the capital sigma by its context. The program is modelled for
  every such function, the field \<open>str_lower\<close> of the environment below.
  \<open>ascii_lower\<close> is what \<open>str.lower()\<close> does on ASCII strings (A..Z go to a..z); it
  serves where a concrete lowering is needed.
\<close>

definition lower_cp :: "nat \<Rightarrow> nat" where
  "lower_cp c = (if 65 \<le> c \<and> c \<le> 90 then c + 32 else c)"

definition ascii_lower :: "pystr \<Rightarrow> pystr" where
  "ascii_lower s = map lower_cp s"

definition py_startswith :: "pystr \<Rightarrow> pystr \<Rightarrow> bool" where
  "py_startswith s p \<longleftrightarrow> take (length p) s = p"

definition py_endswith :: "pystr \<Rightarrow> pystr \<Rightarrow> bool" where
  "py_endswith s p \<longleftrightarrow> length p \<le> length s \<and> drop (length s - length p) s = p"

text \<open>
  \<open>s.replace(old, new)\<close>: every occurrence of \<open>old\<close>, found from the left without
  overlap, is replaced; an empty \<open>old\<close> matches before every code point and at the end.
\<close>

function py_replace :: "pystr \<Rightarrow> pystr \<Rightarrow> pystr \<Rightarrow> pystr" where
  "py_replace old new [] = (if old = [] then new else [])"
| "py_replace old new (c # cs) =
     (if old = [] then new @ c # py_replace old new cs
      else if py_startswith (c # cs) old
           then new @ py_replace old new (drop (length old) (c # cs))
           else c # py_replace old new cs)"
  by pat_completeness auto
termination
  by (relation "measure (\<lambda>(old, new, s). length s)") auto

text \<open>\<open>s.split(sep)\<close> for a separator of one code point.\<close>

fun py_split :: "nat \<Rightarrow> pystr \<Rightarrow> pystr list" where
  "py_split sep [] = [[]]"
| "py_split sep (c # cs) =
     (if c = sep then [] # py_split sep cs
      else (case py_split sep cs of
              [] \<Rightarrow> [[c]]
            | l # ls \<Rightarrow> (c # l) # ls))"

text \<open>\<open>sep.join(parts)\<close>.\<close>

fun py_join :: "pystr \<Rightarrow> pystr list \<Rightarrow> pystr" where
  "py_join sep [] = []"
| "py_join sep [p] = p"
| "py_join sep (p # q # ps) = p @ sep @ py_join sep (q # ps)"

text \<open>
  Exceptions of the interpreter are values. \<open>xs[i]\<close> counts a negative index from the
  end and raises \<open>IndexError\<close> out of range.
\<close>

datatype py_error = IndexError | ValueError

definition py_index :: "'a list \<Rightarrow> int \<Rightarrow> py_error + 'a" where
  "py_index xs i =
     (if 0 \<le> i \<and> i < int (length xs) then Inr (xs ! nat i)
      else if i < 0 \<and> - int (length xs) \<le> i then Inr (xs ! nat (int (length xs) + i))
      else Inl IndexError)"

section \<open>Post-processing of the generated explanation\<close>

text \<open>
  \<open>re.sub(r'^[*-]\s*', '', line)\<close>: without the multi-line flag the pattern can match at
  the start of the string only, one \<open>*\<close> or \<open>-\<close> and then the longest run of white space.
\<close>

definition strip_bullet :: "pystr \<Rightarrow> pystr" where
  "strip_bullet s =
     (case s of
        [] \<Rightarrow> []
      | c # cs \<Rightarrow> if c = ASTERISK \<or> c = HYPHEN then dropWhile py_isspace cs else s)"

definition processed_line_content :: "pystr \<Rightarrow> pystr" where
  "processed_line_content line = strip_bullet (py_strip line)"

definition is_error_step :: "pystr \<Rightarrow> bool" where
  "is_error_step l \<longleftrightarrow> py_startswith l (str ''Step '') \<and> py_endswith l CROSS_MARK"

definition is_step :: "pystr \<Rightarrow> bool" where
  "is_step l \<longleftrightarrow> py_startswith l (str ''Step '')"

definition is_comment :: "pystr \<Rightarrow> bool" where
  "is_comment l \<longleftrightarrow> py_startswith l (str ''Comment:'')"

text \<open>
  The loop over the lines, on the processed content of each line, with the flag
  \<open>last_step_was_error\<close>; the result is what the loop appends to \<open>result_lines\<close>.
\<close>

fun scan_lines :: "bool \<Rightarrow> pystr list \<Rightarrow> pystr list" where
  "scan_lines last_step_was_error [] = []"
| "scan_lines last_step_was_error (l # ls) =
     (if py_startswith l (str ''Step '') \<and> py_endswith l CROSS_MARK
        then l # scan_lines True ls
      else if py_startswith l (str ''Step '')
        then scan_lines False ls
      else if py_startswith l (str ''Comment:'') \<and> last_step_was_error
        then l # scan_lines last_step_was_error ls
      else scan_lines last_step_was_error ls)"

definition processed_lines :: "pystr \<Rightarrow> pystr list" where
  "processed_lines text_block = map processed_line_content (py_split NEWLINE (py_strip text_block))"

definition result_lines :: "pystr \<Rightarrow> pystr list" where
  "result_lines text_block = scan_lines False (processed_lines text_block)"

definition html_list_item :: "pystr \<Rightarrow> pystr" where
  "html_list_item res_line =
     str ''<li>'' @
     py_replace CHECK_MARK (CHECK_MARK @ str '' (Correct)'')
       (py_replace CROSS_MARK (CROSS_MARK @ str '' (Incorrect)'') res_line) @
     str ''</li>''"

definition extract_error_steps_and_comments :: "pystr \<Rightarrow> pystr" where
  "extract_error_steps_and_comments text_block =
     (let rl = result_lines text_block
      in if rl = [] then []
         else str ''<ul>'' @ concat (map html_list_item rl) @ str ''</ul>'')"

section \<open>Problem records and the session state\<close>

text \<open>
  A problem is a dictionary of the question bank. \<open>smiles\<close> and \<open>name\<close> are read with
  \<open>[...]\<close> and are in every record; the other keys are read with \<open>get\<close> or tested with
  \<open>in\<close>, so they are optional. \<open>alternative_names\<close> may hold one string or a list.
\<close>

datatype alt_names = AltStr pystr | AltList "pystr list"

record error_entry =
  incorrect_name :: pystr
  explanation :: pystr

record problem =
  smiles :: pystr
  name :: pystr
  condensed :: "pystr option"
  category :: "pystr option"
  difficulty :: "pystr option"
  alternative_names :: "alt_names option"
  common_errors :: "error_entry list option"

datatype stage = Setup | Quiz | Results

record session =
  app_stage :: stage
  selected_categories :: "pystr list"
  selected_difficulties :: "pystr list"
  num_problems_requested :: int
  quiz_problems_list :: "problem list"
  problem_index :: int
  total_problems_in_quiz :: int
  current_score :: int
  current_mol_smiles :: "pystr option"
  current_correct_name :: pystr
  current_alternative_names :: "pystr list"
  student_answer :: pystr
  is_current_problem_answered :: bool
  is_current_problem_correct :: bool
  feedback_message :: pystr
  ai_explanation :: pystr
  last_selected_formula_type :: pystr
  disable_answer_input :: bool
  disable_formula_dropdown :: bool

text \<open>
  What lies outside the program: the library's \<open>str.lower\<close>, whether the explanation
  service was initialised, the
  service itself (given the student's answer and the correct name, the two values put
  into the prompt, it answers with a text or fails with a message), and whether RDKit
  parses a SMILES string.
\<close>

record env =
  str_lower :: "pystr \<Rightarrow> pystr"
  genai_service_available :: bool
  genai_model :: bool
  generate_content :: "pystr \<Rightarrow> pystr \<Rightarrow> pystr + pystr"
  mol_from_smiles :: "pystr \<Rightarrow> bool"

type_synonym ai_request = "pystr \<times> pystr \<times> pystr option"

definition get_ai_nomenclature_explanation_st :: "env \<Rightarrow> pystr \<Rightarrow> pystr \<Rightarrow> pystr option \<Rightarrow> pystr" where
  "get_ai_nomenclature_explanation_st e student correct_iupac_name smiles_string =
     (if \<not> genai_service_available e \<or> \<not> genai_model e
        then str ''AI explanation service is not available.''
      else (case generate_content e student correct_iupac_name of
              Inr explanation_text \<Rightarrow> extract_error_steps_and_comments explanation_text
            | Inl msg \<Rightarrow> str ''Error calling Gemini API: '' @ msg))"

section \<open>Answer submission\<close>

text \<open>
  The chain \<open>.lower().strip().replace(" ", "").replace("-", "")\<close>, which the source
  applies to the student's answer, the correct name, every alternative name and every
  \<open>incorrect_name\<close>.
\<close>

definition processed_name :: "env \<Rightarrow> pystr \<Rightarrow> pystr" where
  "processed_name e s = py_replace [HYPHEN] [] (py_replace [SPACE] [] (py_strip (str_lower e s)))"

text \<open>The loop over \<open>common_errors\<close>, left at the first entry that matches.\<close>

fun custom_explanation :: "env \<Rightarrow> pystr \<Rightarrow> error_entry list \<Rightarrow> pystr option" where
  "custom_explanation e processed_student_answer [] = None"
| "custom_explanation e processed_student_answer (error_entry # rest) =
     (if processed_student_answer = processed_name e (incorrect_name error_entry)
        then Some (explanation error_entry)
        else custom_explanation e processed_student_answer rest)"

definition correct_feedback :: "pystr \<Rightarrow> pystr" where
  "correct_feedback correct_name =
     str ''<p style='color:green; font-weight:bold; font-size:1.1em;'>Correct! The name is '' @
     correct_name @ str ''.</p>''"

definition feedback_parts :: "pystr \<Rightarrow> pystr \<Rightarrow> pystr list \<Rightarrow> pystr list" where
  "feedback_parts student correct_name alts =
     [str ''<p style='color:red; font-weight:bold; font-size:1.1em;'>Incorrect.</p>'',
      str ''Your answer: <code>'' @ student @ str ''</code>'',
      str ''Correct answer(s): <strong><code>'' @ correct_name @ str ''</code></strong>'' @
        (if alts \<noteq> []
           then str '' or <strong><code>'' @ py_join (str '', '') alts @ str ''</code></strong>''
           else [])]"

text \<open>
  The handler returns the new session state and the requests it sent to the explanation
  function. An exception leaves the handler with \<open>Inl\<close>.
\<close>

definition handle_answer_submission_st :: "env \<Rightarrow> session \<Rightarrow> py_error + (session \<times> ai_request list)" where
  "handle_answer_submission_st e s =
     (if is_current_problem_answered s then Inr (s, [])
      else
        let student = student_answer s;
            correct_name = current_correct_name s;
            alts = current_alternative_names s;
            processed_student_answer = processed_name e student;
            processed_correct_name = processed_name e correct_name;
            processed_alt_names = map (processed_name e) alts;
            is_correct = (processed_student_answer = processed_correct_name \<or>
                          processed_student_answer \<in> set processed_alt_names);
            s1 = s\<lparr>is_current_problem_answered := True,
                   disable_answer_input := True,
                   disable_formula_dropdown := True\<rparr>
        in if is_correct
           then Inr (s1\<lparr>is_current_problem_correct := True,
                        current_score := current_score s1 + 1,
                        feedback_message := correct_feedback correct_name\<rparr>, [])
           else
             (case py_index (quiz_problems_list s1) (problem_index s1) of
                Inl err \<Rightarrow> Inl err
              | Inr problem_spec \<Rightarrow>
                  let found = (case common_errors problem_spec of
                                 None \<Rightarrow> None
                               | Some entries \<Rightarrow> custom_explanation e processed_student_answer entries);
                      parts = feedback_parts student correct_name alts @
                              (case found of
                                 None \<Rightarrow> []
                               | Some expl \<Rightarrow> [str ''<hr><b>Explanation for your answer:</b><br>'' @ expl]);
                      s2 = s1\<lparr>is_current_problem_correct := False,
                              feedback_message := py_join (str ''<br>'') parts\<rparr>
                  in if found = None \<and> genai_service_available e
                     then Inr (s2\<lparr>ai_explanation :=
                                    get_ai_nomenclature_explanation_st e student correct_name
                                      (current_mol_smiles s2)\<rparr>,
                               [(student, correct_name, current_mol_smiles s2)])
                     else Inr (s2\<lparr>ai_explanation := []\<rparr>, [])))"

section \<open>Loading a problem and moving on\<close>

text \<open>
  The session keys are set by \<open>initialize_session_state\<close> before any page runs, so the
  test for missing keys at the head of \<open>load_current_problem_details\<close> never fires and
  the record has every field.
\<close>

definition load_failed_message :: pystr where
  "load_failed_message =
     str ''<p style='color:orange; font-weight:bold;'>Problem Loading Error: This problem could not be loaded and will be skipped. Please click 'Next Problem'.</p>''"

definition load_current_problem_details :: "env \<Rightarrow> session \<Rightarrow> py_error + session" where
  "load_current_problem_details e s =
     (if problem_index s < total_problems_in_quiz s
      then (case py_index (quiz_problems_list s) (problem_index s) of
              Inl err \<Rightarrow> Inl err
            | Inr problem_spec \<Rightarrow>
                let alt_names = alternative_names problem_spec;
                    s1 = s\<lparr>current_mol_smiles := Some (smiles problem_spec),
                           current_correct_name := name problem_spec,
                           current_alternative_names :=
                             (case alt_names of
                                None \<Rightarrow> []
                              | Some (AltStr a) \<Rightarrow> [a]
                              | Some (AltList l) \<Rightarrow> l)\<rparr>
                in if \<not> mol_from_smiles e (smiles problem_spec)
                   then Inr (s1\<lparr>is_current_problem_answered := True,
                                disable_answer_input := True,
                                disable_formula_dropdown := True,
                                feedback_message := load_failed_message,
                                current_mol_smiles := None\<rparr>)
                   else Inr s1)
      else Inr (s\<lparr>current_mol_smiles := None\<rparr>))"

definition go_to_next_problem_callback :: "env \<Rightarrow> session \<Rightarrow> py_error + session" where
  "go_to_next_problem_callback e s =
     (let s1 = s\<lparr>problem_index := problem_index s + 1,
                 student_answer := [],
                 is_current_problem_answered := False,
                 is_current_problem_correct := False,
                 feedback_message := [],
                 ai_explanation := [],
                 disable_answer_input := False,
                 disable_formula_dropdown := False\<rparr>
      in if problem_index s1 \<ge> total_problems_in_quiz s1
         then Inr (s1\<lparr>app_stage := Results\<rparr>)
         else load_current_problem_details e s1)"

section \<open>Starting a quiz\<close>

text \<open>
  \<open>random.sample(population, k)\<close> is library code. It raises \<open>ValueError\<close> unless
  \<open>0 \<le> k \<le> len(population)\<close>, and otherwise draws \<open>k\<close> times from a pool: the element
  at a random position below the number of elements left is taken and the last element
  of the pool is moved into its place. The draws are the argument \<open>rnd\<close>, the \<open>i\<close>-th
  draw reduced below the size of the pool.
\<close>

fun sample_pool :: "(nat \<Rightarrow> nat) \<Rightarrow> nat \<Rightarrow> 'a list \<Rightarrow> nat \<Rightarrow> 'a list" where
  "sample_pool rnd i pool 0 = []"
| "sample_pool rnd i pool (Suc k) =
     (let m = length pool; j = rnd i mod m
      in pool ! j # sample_pool rnd (Suc i) (take (m - 1) (pool[j := pool ! (m - 1)])) k)"

definition random_sample :: "(nat \<Rightarrow> nat) \<Rightarrow> 'a list \<Rightarrow> int \<Rightarrow> py_error + 'a list" where
  "random_sample rnd population k =
     (if 0 \<le> k \<and> k \<le> int (length population)
      then Inr (sample_pool rnd 0 population (nat k))
      else Inl ValueError)"

text \<open>\<open>p.get(key) in selected\<close>: a record without the key gives \<open>None\<close>, which no selection holds.\<close>

definition get_in :: "pystr option \<Rightarrow> pystr list \<Rightarrow> bool" where
  "get_in v selected = (case v of None \<Rightarrow> False | Some x \<Rightarrow> x \<in> set selected)"

text \<open>The list \<open>filtered_problems\<close> after the two filters.\<close>

definition filtered_problems :: "problem list \<Rightarrow> pystr list \<Rightarrow> pystr list \<Rightarrow> problem list" where
  "filtered_problems practice_problems selected_cats selected_diffs =
     (let f0 = practice_problems;
          f1 = (if selected_cats \<noteq> [] then filter (\<lambda>p. get_in (category p) selected_cats) f0 else f0);
          f2 = (if selected_diffs \<noteq> [] then filter (\<lambda>p. get_in (difficulty p) selected_diffs) f1 else f1)
      in f2)"

text \<open>
  The ways \<open>setup_new_quiz_st\<close> ends: the quiz is started, or one of its three error
  messages is shown and the function returns.
\<close>

datatype setup_outcome = Started | NoMatchingProblems | NoProblemsAvailable | NotEnoughProblems

definition setup_new_quiz_st ::
  "env \<Rightarrow> (nat \<Rightarrow> nat) \<Rightarrow> problem list \<Rightarrow> session \<Rightarrow> py_error + (setup_outcome \<times> session)" where
  "setup_new_quiz_st e rnd practice_problems s =
     (let selected_cats = selected_categories s;
          selected_diffs = selected_difficulties s;
          filtered = filtered_problems practice_problems selected_cats selected_diffs
      in if filtered = [] \<and> (selected_cats \<noteq> [] \<or> selected_diffs \<noteq> [])
         then Inr (NoMatchingProblems, s)
         else
           let filtered2 = (if filtered = [] then practice_problems else filtered)
           in if filtered2 = [] then Inr (NoProblemsAvailable, s)
              else
                let num_req = num_problems_requested s;
                    actual_num_problems = min num_req (int (length filtered2))
                in if actual_num_problems = 0 then Inr (NotEnoughProblems, s)
                   else
                     (case random_sample rnd filtered2 actual_num_problems of
                        Inl err \<Rightarrow> Inl err
                      | Inr chosen \<Rightarrow>
                          (case load_current_problem_details e
                                  (s\<lparr>quiz_problems_list := chosen,
                                     total_problems_in_quiz := actual_num_problems,
                                     problem_index := 0,
                                     current_score := 0,
                                     app_stage := Quiz,
                                     student_answer := [],
                                     is_current_problem_answered := False,
                                     is_current_problem_correct := False,
                                     feedback_message := [],
                                     ai_explanation := [],
                                     disable_answer_input := False,
                                     disable_formula_dropdown := False\<rparr>) of
                             Inl err \<Rightarrow> Inl err
                           | Inr s' \<Rightarrow> Inr (Started, s'))))"

section \<open>The pages: which handler runs when\<close>

text \<open>\<open>not st.session_state.current_mol_smiles\<close>: \<open>None\<close> and the empty string are false.\<close>

definition no_smiles :: "session \<Rightarrow> bool" where
  "no_smiles s \<longleftrightarrow> current_mol_smiles s = None \<or> current_mol_smiles s = Some []"

text \<open>The changes of state at the head of \<open>display_quiz_page_st\<close>.\<close>

definition display_quiz_page_st :: "env \<Rightarrow> session \<Rightarrow> py_error + session" where
  "display_quiz_page_st e s =
     (case (if no_smiles s \<and> problem_index s < total_problems_in_quiz s \<and> quiz_problems_list s \<noteq> []
            then load_current_problem_details e s else Inr s) of
        Inl err \<Rightarrow> Inl err
      | Inr s1 \<Rightarrow>
          if no_smiles s1 \<and> problem_index s1 < total_problems_in_quiz s1
          then Inr (s1\<lparr>is_current_problem_answered := True\<rparr>)
          else Inr s1)"

text \<open>
  One run of the script: the router shows the page of the stage; a quiz stage without
  problems goes back to the setup page.
\<close>

definition app_router :: "env \<Rightarrow> session \<Rightarrow> py_error + session" where
  "app_router e s =
     (case app_stage s of
        Setup \<Rightarrow> Inr s
      | Quiz \<Rightarrow> if quiz_problems_list s = [] \<or> total_problems_in_quiz s = 0
                then Inr (s\<lparr>app_stage := Setup\<rparr>)
                else display_quiz_page_st e s
      | Results \<Rightarrow> Inr s)"

text \<open>
  The start button of the setup page runs \<open>setup_new_quiz_st\<close> and reruns the script when
  the stage has become \<open>quiz\<close>.
\<close>

definition start_practice ::
  "env \<Rightarrow> (nat \<Rightarrow> nat) \<Rightarrow> problem list \<Rightarrow> session \<Rightarrow> py_error + (setup_outcome \<times> session)" where
  "start_practice e rnd practice_problems s =
     (case setup_new_quiz_st e rnd practice_problems s of
        Inl err \<Rightarrow> Inl err
      | Inr (outcome, s') \<Rightarrow>
          if app_stage s' = Quiz
          then (case app_router e s' of Inl err \<Rightarrow> Inl err | Inr s'' \<Rightarrow> Inr (outcome, s''))
          else Inr (outcome, s'))"

text \<open>
  The two operations of the quiz page. The submit button of the form is disabled when the
  problem is answered or has no structure, the next button when the problem is not
  answered; neither exists outside the quiz page. Submitting runs the script up to the
  form with the text of the input in \<open>student_answer\<close> (unless the input is disabled),
  then the handler, then the script again; the next button runs its callback and then
  the script.
\<close>

datatype event = SubmitAnswer pystr | NextProblem

definition quiz_event :: "env \<Rightarrow> event \<Rightarrow> session \<Rightarrow> py_error + session" where
  "quiz_event e ev s =
     (if app_stage s \<noteq> Quiz then Inr s
      else
        (case ev of
           SubmitAnswer txt \<Rightarrow>
             (case app_router e s of
                Inl err \<Rightarrow> Inl err
              | Inr s1 \<Rightarrow>
                  if app_stage s1 \<noteq> Quiz \<or> is_current_problem_answered s1 \<or> no_smiles s1
                  then Inr s1
                  else (case handle_answer_submission_st e
                               (s1\<lparr>student_answer :=
                                     (if disable_answer_input s1 then student_answer s1 else txt)\<rparr>) of
                          Inl err \<Rightarrow> Inl err
                        | Inr (s2, reqs) \<Rightarrow> app_router e s2))
         | NextProblem \<Rightarrow>
             if \<not> is_current_problem_answered s then Inr s
             else (case go_to_next_problem_callback e s of
                     Inl err \<Rightarrow> Inl err
                   | Inr s1 \<Rightarrow> app_router e s1)))"

fun quiz_events :: "env \<Rightarrow> event list \<Rightarrow> session \<Rightarrow> py_error + session" where
  "quiz_events e [] s = Inr s"
| "quiz_events e (ev # evs) s =
     (case quiz_event e ev s of
        Inl err \<Rightarrow> Inl err
      | Inr s' \<Rightarrow> quiz_events e evs s')"

section \<open>The question bank\<close>

definition mk_problem :: "pystr \<Rightarrow> pystr \<Rightarrow> pystr \<Rightarrow> pystr \<Rightarrow> pystr \<Rightarrow> problem" where
  "mk_problem sm nm cond cat diff =
     \<lparr>smiles = sm, name = nm, condensed = Some cond, category = Some cat,
      difficulty = Some diff, alternative_names = None, common_errors = None\<rparr>"

definition practice_problems :: "problem list" where
  "practice_problems = [
    mk_problem (str ''C'') (str ''methane'') (str ''CH4'') (str ''Straight-chain Alkane'') (str ''Easy''),
    mk_problem (str ''CC'') (str ''ethane'') (str ''CH3CH3'') (str ''Straight-chain Alkane'') (str ''Easy''),
    mk_problem (str ''CCC'') (str ''propane'') (str ''CH3CH2CH3'') (str ''Straight-chain Alkane'') (str ''Easy''),
    mk_problem (str ''CCCC'') (str ''butane'') (str ''CH3CH2CH2CH3'') (str ''Straight-chain Alkane'') (str ''Medium''),
    mk_problem (str ''CCCCC'') (str ''pentane'') (str ''CH3(CH2)3CH3'') (str ''Straight-chain Alkane'') (str ''Medium''),
    mk_problem (str ''CCCCCC'') (str ''hexane'') (str ''CH3(CH2)4CH3'') (str ''Straight-chain Alkane'') (str ''Medium''),
    mk_problem (str ''CCCCCCC'') (str ''heptane'') (str ''CH3(CH2)5CH3'') (str ''Straight-chain Alkane'') (str ''Difficult''),
    mk_problem (str ''CCCCCCCC'') (str ''octane'') (str ''CH3(CH2)6CH3'') (str ''Straight-chain Alkane'') (str ''Difficult''),
    mk_problem (str ''CC(C)C'') (str ''2-methylpropane'') (str ''CH3CH(CH3)CH3'') (str ''Branched Alkane'') (str ''Easy''),
    mk_problem (str ''CC(C)CC'') (str ''2-methylbutane'') (str ''CH3CH(CH3)CH2CH3'') (str ''Branched Alkane'') (str ''Medium''),
    mk_problem (str ''CCC(C)CC'') (str ''3-methylpentane'') (str ''CH3CH2CH(CH3)CH2CH3'') (str ''Branched Alkane'') (str ''Medium''),
    mk_problem (str ''CC(C)(C)C'') (str ''2,2-dimethylpropane'') (str ''C(CH3)4'') (str ''Branched Alkane'') (str ''Medium''),
    mk_problem (str ''CC(C)CCC'') (str ''2-methylpentane'') (str ''CH3CH(CH3)CH2CH2CH3'') (str ''Branched Alkane'') (str ''Medium''),
    mk_problem (str ''CC(C)C(C)C'') (str ''2,3-dimethylbutane'') (str ''CH3CH(CH3)CH(CH3)CH3'') (str ''Branched Alkane'') (str ''Hard''),
    mk_problem (str ''CCC(C)(C)CC'') (str ''3,3-dimethylpentane'') (str ''CH3CH2C(CH3)2CH2CH3'') (str ''Branched Alkane'') (str ''Hard''),
    mk_problem (str ''CC(C)CC(C)C'') (str ''2,4-dimethylpentane'') (str ''CH3CH(CH3)CH2CH(CH3)CH3'') (str ''Branched Alkane'') (str ''Hard''),
    mk_problem (str ''CCC(CC)CCC'') (str ''4-ethylheptane'') (str ''CH3CH2CH2CH(CH2CH3)CH2CH2CH3'') (str ''Branched Alkane'') (str ''Hard''),
    mk_problem (str ''CC(C)(C)CC(C)C'') (str ''2,2,4-trimethylpentane'') (str ''(CH3)3CCH2CH(CH3)CH3'') (str ''Branched Alkane'') (str ''Hard''),
    mk_problem (str ''C=C'') (str ''ethene'') (str ''CH2=CH2'') (str ''Alkene'') (str ''Easy''),
    mk_problem (str ''CC=C'') (str ''propene'') (str ''CH3CH=CH2'') (str ''Alkene'') (str ''Easy''),
    mk_problem (str ''C=CCC'') (str ''but-1-ene'') (str ''CH2=CHCH2CH3'') (str ''Alkene'') (str ''Medium''),
    mk_problem (str ''CC=CC'') (str ''but-2-ene'') (str ''CH3CH=CHCH3'') (str ''Alkene'') (str ''Medium''),
    mk_problem (str ''C=CCCC'') (str ''pent-1-ene'') (str ''CH2=CHCH2CH2CH3'') (str ''Alkene'') (str ''Medium''),
    mk_problem (str ''CC=CCC'') (str ''pent-2-ene'') (str ''CH3CH=CHCH2CH3'') (str ''Alkene'') (str ''Medium''),
    mk_problem (str ''CC(C)C=C'') (str ''3-methylbut-1-ene'') (str ''CH3CH(CH3)CH=CH2'') (str ''Alkene'') (str ''Medium''),
    mk_problem (str ''C=C(C)CC'') (str ''2-methylbut-1-ene'') (str ''CH2=C(CH3)CH2CH3'') (str ''Alkene'') (str ''Hard''),
    mk_problem (str ''CC=C(C)C'') (str ''2-methylbut-2-ene'') (str ''CH3CH=C(CH3)CH3'') (str ''Alkene'') (str ''Hard''),
    mk_problem (str ''CCC(C)=CCC'') (str ''3-methylhex-3-ene'') (str ''CH3CH2C(CH3)=CHCH2CH3'') (str ''Alkene'') (str ''Hard''),
    mk_problem (str ''C(Cl)'') (str ''chloromethane'') (str ''CH3Cl'') (str ''Haloalkane'') (str ''Easy''),
    mk_problem (str ''CCBr'') (str ''bromoethane'') (str ''CH3CH2Br'') (str ''Haloalkane'') (str ''Easy''),
    mk_problem (str ''CI'') (str ''iodomethane'') (str ''CH3I'') (str ''Haloalkane'') (str ''Easy''),
    mk_problem (str ''CF'') (str ''fluoromethane'') (str ''CH3F'') (str ''Haloalkane'') (str ''Easy''),
    mk_problem (str ''CCCI'') (str ''1-iodopropane'') (str ''CH3CH2CH2I'') (str ''Haloalkane'') (str ''Medium''),
    mk_problem (str ''CC(I)C'') (str ''2-iodopropane'') (str ''CH3CHICH3'') (str ''Haloalkane'') (str ''Medium''),
    mk_problem (str ''CCCCl'') (str ''1-chloropropane'') (str ''CH3CH2CH2Cl'') (str ''Haloalkane'') (str ''Medium''),
    mk_problem (str ''CC(Cl)C'') (str ''2-chloropropane'') (str ''CH3CHClCH3'') (str ''Haloalkane'') (str ''Medium''),
    mk_problem (str ''C(F)(F)F'') (str ''trifluoromethane'') (str ''CHF3'') (str ''Haloalkane'') (str ''Medium''),
    mk_problem (str ''CC(Br)CC'') (str ''2-bromobutane'') (str ''CH3CHBrCH2CH3'') (str ''Haloalkane'') (str ''Medium''),
    mk_problem (str ''ClCCBr'') (str ''1-bromo-2-chloroethane'') (str ''ClCH2CH2Br'') (str ''Haloalkane'') (str ''Hard''),
    mk_problem (str ''CC(Cl)(I)C'') (str ''2-chloro-2-iodopropane'') (str ''CH3C(Cl)(I)CH3'') (str ''Haloalkane'') (str ''Hard''),
    mk_problem (str ''FC(Cl)I'') (str ''chlorofluoroiodomethane'') (str ''CHFClI'') (str ''Haloalkane'') (str ''Hard''),
    mk_problem (str ''CO'') (str ''methanol'') (str ''CH3OH'') (str ''Alkanol'') (str ''Easy''),
    mk_problem (str ''CCO'') (str ''ethanol'') (str ''CH3CH2OH'') (str ''Alkanol'') (str ''Easy''),
    mk_problem (str ''CCCO'') (str ''propan-1-ol'') (str ''CH3CH2CH2OH'') (str ''Alkanol'') (str ''Medium''),
    mk_problem (str ''CC(O)C'') (str ''propan-2-ol'') (str ''CH3CH(OH)CH3'') (str ''Alkanol'') (str ''Medium''),
    mk_problem (str ''CCCCO'') (str ''butan-1-ol'') (str ''CH3CH2CH2CH2OH'') (str ''Alkanol'') (str ''Medium''),
    mk_problem (str ''CC(O)CC'') (str ''butan-2-ol'') (str ''CH3CH(OH)CH2CH3'') (str ''Alkanol'') (str ''Medium''),
    mk_problem (str ''CC(C)(O)C'') (str ''2-methylpropan-2-ol'') (str ''(CH3)3COH'') (str ''Alkanol'') (str ''Hard''),
    mk_problem (str ''CC(C)CO'') (str ''2-methylpropan-1-ol'') (str ''CH3CH(CH3)CH2OH'') (str ''Alkanol'') (str ''Hard''),
    mk_problem (str ''CCC(O)CC'') (str ''pentan-3-ol'') (str ''CH3CH2CH(OH)CH2CH3'') (str ''Alkanol'') (str ''Hard''),
    mk_problem (str ''CC(O)C(O)C'') (str ''butane-2,3-diol'') (str ''CH3CH(OH)CH(OH)CH3'') (str ''Alkanol'') (str ''Hard''),
    mk_problem (str ''C(=O)O'') (str ''methanoic acid'') (str ''HCOOH'') (str ''Carboxylic Acid'') (str ''Easy''),
    mk_problem (str ''CC(=O)O'') (str ''ethanoic acid'') (str ''CH3COOH'') (str ''Carboxylic Acid'') (str ''Easy''),
    mk_problem (str ''CCC(=O)O'') (str ''propanoic acid'') (str ''CH3CH2COOH'') (str ''Carboxylic Acid'') (str ''Medium''),
    mk_problem (str ''CCCC(=O)O'') (str ''butanoic acid'') (str ''CH3CH2CH2COOH'') (str ''Carboxylic Acid'') (str ''Medium''),
    mk_problem (str ''CC(C)C(=O)O'') (str ''2-methylpropanoic acid'') (str ''CH3CH(CH3)COOH'') (str ''Carboxylic Acid'') (str ''Medium''),
    mk_problem (str ''CCCCC(=O)O'') (str ''pentanoic acid'') (str ''CH3CH2CH2CH2COOH'') (str ''Carboxylic Acid'') (str ''Hard''),
    mk_problem (str ''CC(C)CC(=O)O'') (str ''3-methylbutanoic acid'') (str ''CH3CH(CH3)CH2COOH'') (str ''Carboxylic Acid'') (str ''Hard''),
    mk_problem (str ''C(C(=O)O)C(=O)O'') (str ''propanedioic acid'') (str ''HOOCCH2COOH'') (str ''Carboxylic Acid'') (str ''Hard''),
    mk_problem (str ''CC(Cl)C(=O)O'') (str ''2-chloropropanoic acid'') (str ''CH3CH(Cl)COOH'') (str ''Carboxylic Acid'') (str ''Hard''),
    mk_problem (str ''CC(O)C=C'') (str ''but-3-en-2-ol'') (str ''CH2=CHCH(OH)CH3'') (str ''Mixed Functional Groups'') (str ''Medium''),
    mk_problem (str ''C=CCCO'') (str ''but-3-en-1-ol'') (str ''CH2=CHCH2CH2OH'') (str ''Mixed Functional Groups'') (str ''Medium''),
    mk_problem (str ''CC=CC(O)C'') (str ''pent-3-en-2-ol'') (str ''CH3CH=CHCH(OH)CH3'') (str ''Mixed Functional Groups'') (str ''Hard''),
    mk_problem (str ''C=C(C)CO'') (str ''2-methylprop-2-en-1-ol'') (str ''CH2=C(CH3)CH2OH'') (str ''Mixed Functional Groups'') (str ''Hard''),
    mk_problem (str ''OCCBr'') (str ''2-bromoethanol'') (str ''HOCH2CH2Br'') (str ''Mixed Functional Groups'') (str ''Medium''),
    mk_problem (str ''ClCC(O)C'') (str ''1-chloropropan-2-ol'') (str ''ClCH2CH(OH)CH3'') (str ''Mixed Functional Groups'') (str ''Medium''),
    mk_problem (str ''CC(O)CI'') (str ''1-iodopropan-2-ol'') (str ''ICH2CH(OH)CH3'') (str ''Mixed Functional Groups'') (str ''Hard''),
    mk_problem (str ''C=CC(Br)CO'') (str ''2-bromobut-3-en-1-ol'') (str ''CH2=CHCH(Br)CH2OH'') (str ''Mixed Functional Groups'') (str ''Hard''),
    mk_problem (str ''C=CCl'') (str ''chloroethene'') (str ''CH2=CHCl'') (str ''Mixed Functional Groups'') (str ''Easy''),
    mk_problem (str ''BrC=C'') (str ''bromoethene'') (str ''CHBr=CH2'') (str ''Mixed Functional Groups'') (str ''Easy''),
    mk_problem (str ''C=CI'') (str ''iodoethene'') (str ''CH2=CHI'') (str ''Mixed Functional Groups'') (str ''Easy''),
    mk_problem (str ''ClC=CCl'') (str ''1,2-dichloroethene'') (str ''CHCl=CHCl'') (str ''Mixed Functional Groups'') (str ''Medium''),
    mk_problem (str ''C=CCBr'') (str ''3-bromoprop-1-ene'') (str ''CH2=CHCH2Br'') (str ''Mixed Functional Groups'') (str ''Medium''),
    mk_problem (str ''C=CC(=O)O'') (str ''propenoic acid'') (str ''CH2=CHCOOH'') (str ''Mixed Functional Groups'') (str ''Medium''),
    mk_problem (str ''CC=CC(=O)O'') (str ''but-2-enoic acid'') (str ''CH3CH=CHCOOH'') (str ''Mixed Functional Groups'') (str ''Medium''),
    mk_problem (str ''C=C(C)C(=O)O'') (str ''2-methylpropenoic acid'') (str ''CH2=C(CH3)COOH'') (str ''Mixed Functional Groups'') (str ''Hard''),
    mk_problem (str ''ClCC(=O)O'') (str ''chloroethanoic acid'') (str ''ClCH2COOH'') (str ''Mixed Functional Groups'') (str ''Medium''),
    mk_problem (str ''BrCCC(=O)O'') (str ''3-bromopropanoic acid'') (str ''BrCH2CH2COOH'') (str ''Mixed Functional Groups'') (str ''Medium''),
    mk_problem (str ''CC(I)C(=O)O'') (str ''2-iodopropanoic acid'') (str ''CH3CH(I)COOH'') (str ''Mixed Functional Groups'') (str ''Hard''),
    mk_problem (str ''ClC(Cl)C(=O)O'') (str ''2,2-dichloroethanoic acid'') (str ''Cl2CHCOOH'') (str ''Mixed Functional Groups'') (str ''Hard''),
    mk_problem (str ''ClC=CC(O)C'') (str ''1-chlorobut-1-en-3-ol'') (str ''ClCH=CHCH(OH)CH3'') (str ''Mixed Functional Groups'') (str ''Hard''),
    mk_problem (str ''CC(Br)=CC(=O)O'') (str ''3-bromobut-2-enoic acid'') (str ''CH3C(Br)=CHCOOH'') (str ''Mixed Functional Groups'') (str ''Hard''),
    mk_problem (str ''OCC(Cl)C=C'') (str ''3-chlorobut-3-en-1-ol'') (str ''HOCH2CH(Cl)C=CH2'') (str ''Mixed Functional Groups'') (str ''Hard''),
    mk_problem (str ''CC(O)C(C)C(=O)O'') (str ''2-hydroxy-3-methylbutanoic acid'') (str ''CH3CH(OH)CH(CH3)COOH'') (str ''Mixed Functional Groups'') (str ''Hard''),
    mk_problem (str ''C=C(Cl)C(C)(O)C'') (str ''3-chloro-2-methylbut-3-en-2-ol'') (str ''CH2=C(Cl)C(CH3)(OH)CH3'') (str ''Mixed Functional Groups'') (str ''Hard''),
    mk_problem (str ''BrC(C)=CC(O)C'') (str ''4-bromopent-3-en-2-ol'') (str ''BrCH(CH3)C=CHCH(OH)CH3'') (str ''Mixed Functional Groups'') (str ''Hard''),
    mk_problem (str ''CC(O)C=C(Br)C'') (str ''4-bromopent-3-en-2-ol'') (str ''CH3CH(OH)CH=C(Br)CH3'') (str ''Mixed Functional Groups'') (str ''Hard''),
    mk_problem (str ''CCC(O)C=C'') (str ''pent-1-en-3-ol'') (str ''CH3CH2CH(OH)CH=CH2'') (str ''Mixed Functional Groups'') (str ''Medium''),
    mk_problem (str ''CC(Cl)C(O)CC'') (str ''2-chloropentan-3-ol'') (str ''CH3CH(Cl)CH(OH)CH2CH3'') (str ''Mixed Functional Groups'') (str ''Hard''),
    mk_problem (str ''C=C(Br)CCC(=O)O'') (str ''4-bromopent-4-enoic acid'') (str ''CH2=C(Br)CH2CH2COOH'') (str ''Mixed Functional Groups'') (str ''Hard''),
    mk_problem (str ''OCC=CCO'') (str ''but-2-ene-1,4-diol'') (str ''HOCH2CH=CHCH2OH'') (str ''Mixed Functional Groups'') (str ''Hard''),
    mk_problem (str ''ClCC(Cl)CO'') (str ''2,3-dichloropropan-1-ol'') (str ''ClCH2CH(Cl)CH2OH'') (str ''Mixed Functional Groups'') (str ''Hard''),
    mk_problem (str ''C=CC(Br)CO'') (str ''2-bromobut-3-en-1-ol'') (str ''CH2=CHCH(Br)CH2OH'') (str ''Mixed Functional Groups'') (str ''Hard''),
    mk_problem (str ''CC(Cl)=CCC(=O)O'') (str ''4-chloropent-3-enoic acid'') (str ''CH3C(Cl)=CHCH2COOH'') (str ''Mixed Functional Groups'') (str ''Hard''),
    mk_problem (str ''CC(I)C=C'') (str ''3-iodobut-1-ene'') (str ''CH3CH(I)CH=CH2'') (str ''Mixed Functional Groups'') (str ''Hard''),
    mk_problem (str ''O=C(O)C=CC(=O)O'') (str ''butenedioic acid'') (str ''HOOCCH=CHCOOH'') (str ''Mixed Functional Groups'') (str ''Hard'')
  ]"

section \<open>Session defaults\<close>

text \<open>The defaults of \<open>initialize_session_state\<close>.\<close>

definition initial_session :: session where
  "initial_session =
     \<lparr>app_stage = Setup,
      selected_categories = [],
      selected_difficulties = [],
      num_problems_requested = 5,
      quiz_problems_list = [],
      problem_index = 0,
      total_problems_in_quiz = 0,
      current_score = 0,
      current_mol_smiles = None,
      current_correct_name = [],
      current_alternative_names = [],
      student_answer = [],
      is_current_problem_answered = False,
      is_current_problem_correct = False,
      feedback_message = [],
      ai_explanation = [],
      last_selected_formula_type = str ''Skeletal'',
      disable_answer_input = False,
      disable_formula_dropdown = False\<rparr>"

section \<open>The specification's notions\<close>

text \<open>
  Normalization as the specification words it: lowercase, strip leading and trailing
  white space, remove every space and every hyphen, and alter nothing else.
\<close>

definition spec_normalize :: "env \<Rightarrow> pystr \<Rightarrow> pystr" where
  "spec_normalize e s = filter (\<lambda>c. c \<noteq> SPACE \<and> c \<noteq> HYPHEN) (py_strip (str_lower e s))"

text \<open>
  The matching rule of the specification: the normalized answer equals the normalized
  canonical name or the normalized form of some alternative name.
\<close>

definition spec_accepts :: "env \<Rightarrow> pystr \<Rightarrow> pystr \<Rightarrow> pystr list \<Rightarrow> bool" where
  "spec_accepts e answer canonical alts \<longleftrightarrow>
     spec_normalize e answer = spec_normalize e canonical \<or>
     (\<exists>alt \<in> set alts. spec_normalize e answer = spec_normalize e alt)"

text \<open>The alternative names of a record as the specification's sequence of strings.\<close>

definition alternative_names_list :: "problem \<Rightarrow> pystr list" where
  "alternative_names_list p =
     (case alternative_names p of
        None \<Rightarrow> []
      | Some (AltStr a) \<Rightarrow> [a]
      | Some (AltList l) \<Rightarrow> l)"

definition with_alternatives_as_list :: "problem \<Rightarrow> problem" where
  "with_alternatives_as_list p = p\<lparr>alternative_names := Some (AltList (alternative_names_list p))\<rparr>"

text \<open>
  A retained line as it is to stand in the output: every incorrect marker followed by
  \<open>(Incorrect)\<close>, every correct marker by \<open>(Correct)\<close>, nothing else changed.
\<close>

definition marked :: "pystr \<Rightarrow> pystr" where
  "marked l =
     concat (map (\<lambda>c. if [c] = CROSS_MARK then CROSS_MARK @ str '' (Incorrect)''
                      else if [c] = CHECK_MARK then CHECK_MARK @ str '' (Correct)''
                      else [c]) l)"

text \<open>Whether the last step line of a run of lines is an incorrect step.\<close>

definition last_step_is_error :: "pystr list \<Rightarrow> bool" where
  "last_step_is_error ls =
     (case rev (filter is_step ls) of
        [] \<Rightarrow> False
      | l # _ \<Rightarrow> is_error_step l)"

text \<open>
  A session whose problems all hold their alternative names as a sequence: a single
  string as the sequence of that one string, a missing key as the empty sequence.
\<close>

definition as_lists :: "session \<Rightarrow> session" where
  "as_lists s = s\<lparr>quiz_problems_list := map with_alternatives_as_list (quiz_problems_list s)\<rparr>"

text \<open>Eligibility as the specification words it: a non-empty selection must hold the record's tag.\<close>

definition spec_eligible :: "pystr list \<Rightarrow> pystr list \<Rightarrow> problem \<Rightarrow> bool" where
  "spec_eligible cats diffs p \<longleftrightarrow>
     (cats \<noteq> [] \<longrightarrow> (\<exists>c \<in> set cats. category p = Some c)) \<and>
     (diffs \<noteq> [] \<longrightarrow> (\<exists>d \<in> set diffs. difficulty p = Some d))"

section \<open>Notions used in the proofs\<close>

text \<open>The session as \<open>setup_new_quiz_st\<close> leaves it before it loads the first problem.\<close>

definition quiz_reset :: "session \<Rightarrow> problem list \<Rightarrow> session" where
  "quiz_reset s chosen =
     s\<lparr>quiz_problems_list := chosen,
       total_problems_in_quiz := int (length chosen),
       problem_index := 0,
       current_score := 0,
       app_stage := Quiz,
       student_answer := [],
       is_current_problem_answered := False,
       is_current_problem_correct := False,
       feedback_message := [],
       ai_explanation := [],
       disable_answer_input := False,
       disable_formula_dropdown := False\<rparr>"

text \<open>
  What holds of every session of a started quiz: the total is the length of the list, the
  score is between 0 and the total, and on the quiz page the index is in range and the
  score is at most the number of problems answered so far.
\<close>

definition quiz_inv :: "session \<Rightarrow> bool" where
  "quiz_inv s \<longleftrightarrow>
     total_problems_in_quiz s = int (length (quiz_problems_list s)) \<and>
     0 \<le> problem_index s \<and>
     0 \<le> current_score s \<and>
     current_score s \<le> total_problems_in_quiz s \<and>
     (app_stage s = Quiz \<longrightarrow>
        problem_index s < total_problems_in_quiz s \<and>
        current_score s \<le> problem_index s + (if is_current_problem_answered s then 1 else 0))"

text \<open>The flag \<open>last_step_was_error\<close> after a run of lines, from its value before them.\<close>

definition flag_after :: "bool \<Rightarrow> pystr list \<Rightarrow> bool" where
  "flag_after b ls = (case rev (filter is_step ls) of [] \<Rightarrow> b | l # _ \<Rightarrow> is_error_step l)"

section \<open>An example session\<close>

text \<open>
  The row of propan-2-ol of the question bank, given one alternative name as a single
  string and one common error; an environment that lowers ASCII letters, whose
  explanation service is up and in which every SMILES string parses; the session of a quiz on that one problem.
\<close>

definition example_problem :: problem where
  "example_problem =
     (mk_problem (str ''CC(O)C'') (str ''propan-2-ol'') (str ''CH3CH(OH)CH3'') (str ''Alkanol'') (str ''Medium''))
       \<lparr>alternative_names := Some (AltStr (str ''isopropanol'')),
        common_errors := Some [\<lparr>incorrect_name = str ''propan-1-ol'',
                                 explanation = str ''The hydroxyl group is on carbon 2.''\<rparr>]\<rparr>"

definition example_env :: env where
  "example_env =
     \<lparr>str_lower = ascii_lower,
      genai_service_available = True, genai_model = True,
      generate_content = (\<lambda>student correct_name. Inr []),
      mol_from_smiles = (\<lambda>smiles_string. True)\<rparr>"

definition example_session :: session where
  "example_session =
     initial_session\<lparr>app_stage := Quiz,
                     quiz_problems_list := [example_problem],
                     total_problems_in_quiz := 1\<rparr>"

text \<open>
  The same problem with a second common error whose key differs from the first in case,
  spaces and hyphens only, and a session in which it is the current problem and the
  answer is that key without spaces and hyphens.
\<close>

definition two_keys_problem :: problem where
  "two_keys_problem =
     example_problem
       \<lparr>common_errors := Some [\<lparr>incorrect_name = str ''propan-1-ol'',
                                 explanation = str ''The hydroxyl group is on carbon 2.''\<rparr>,
                               \<lparr>incorrect_name = str ''Propan 1 ol'',
                                 explanation = str ''Count from the other end.''\<rparr>]\<rparr>"

definition two_keys_session :: session where
  "two_keys_session =
     example_session\<lparr>quiz_problems_list := [two_keys_problem],
                     current_correct_name := str ''propan-2-ol'',
                     student_answer := str ''propan1ol''\<rparr>"

section \<open>Strings: replacing, stripping, lowering\<close>

lemma py_replace_single_empty: "py_replace [c] [] s = filter (\<lambda>x. x \<noteq> c) s"
  by (induction s) (auto simp: py_startswith_def)

lemma processed_name_spec: "processed_name e s = spec_normalize e s"
  by (simp add: processed_name_def spec_normalize_def py_replace_single_empty conj_commute)

lemma set_py_strip: "set (py_strip s) \<subseteq> set s"
proof -
  have "set (py_strip s) \<subseteq> set (dropWhile py_isspace s)"
    unfolding py_strip_def using set_dropWhileD[of _ py_isspace "rev (dropWhile py_isspace s)"] by auto
  also have "\<dots> \<subseteq> set s" using set_dropWhileD by fastforce
  finally show ?thesis .
qed

lemma dropWhile_none: "\<forall>c\<in>set s. \<not> P c \<Longrightarrow> dropWhile P s = s"
  by (cases s) auto

lemma py_strip_no_space: "\<forall>c\<in>set s. \<not> py_isspace c \<Longrightarrow> py_strip s = s"
  unfolding py_strip_def by (simp add: dropWhile_none)

lemma lower_cp_idem: "lower_cp (lower_cp c) = lower_cp c"
  by (simp add: lower_cp_def)

lemma lower_cp_isspace: "py_isspace (lower_cp c) \<Longrightarrow> lower_cp c = c"
  by (auto simp: lower_cp_def py_isspace_def split: if_splits)

lemma ascii_lower_fixed_points: "set t \<subseteq> set (ascii_lower s) \<Longrightarrow> ascii_lower t = t"
  unfolding ascii_lower_def by (rule map_idI) (auto simp: lower_cp_idem)

lemma ascii_lower_no_new_space: "c \<in> set (ascii_lower s) \<Longrightarrow> py_isspace c \<Longrightarrow> c \<in> set s"
  by (auto simp: ascii_lower_def) (metis lower_cp_isspace)

lemma spec_normalize_twice:
  assumes fixed: "\<And>s t. set t \<subseteq> set (str_lower e s) \<Longrightarrow> str_lower e t = t"
  shows "spec_normalize e (spec_normalize e s) = py_strip (spec_normalize e s)"
proof -
  let ?n = "spec_normalize e s"
  have sub: "set ?n \<subseteq> set (str_lower e s)"
    unfolding spec_normalize_def using set_py_strip[of "str_lower e s"] by auto
  have low: "str_lower e ?n = ?n" using sub by (rule fixed)
  have nosp: "\<forall>c\<in>set ?n. c \<noteq> SPACE \<and> c \<noteq> HYPHEN"
    by (auto simp: spec_normalize_def)
  have "\<forall>c\<in>set (py_strip ?n). c \<noteq> SPACE \<and> c \<noteq> HYPHEN"
    using nosp set_py_strip[of ?n] by blast
  then have "filter (\<lambda>c. c \<noteq> SPACE \<and> c \<noteq> HYPHEN) (py_strip ?n) = py_strip ?n"
    by (simp add: filter_id_conv)
  then show ?thesis
    by (simp add: spec_normalize_def[of e ?n] low)
qed

lemma spec_normalize_no_space:
  assumes nospace: "\<And>s c. c \<in> set (str_lower e s) \<Longrightarrow> py_isspace c \<Longrightarrow> c \<in> set s"
    and only: "\<forall>c\<in>set s. py_isspace c \<longrightarrow> c = SPACE"
  shows "\<forall>c\<in>set (spec_normalize e s). \<not> py_isspace c"
proof
  fix c assume c: "c \<in> set (spec_normalize e s)"
  then have ne: "c \<noteq> SPACE" and "c \<in> set (py_strip (str_lower e s))"
    by (auto simp: spec_normalize_def)
  then have in_low: "c \<in> set (str_lower e s)" using set_py_strip by blast
  show "\<not> py_isspace c"
  proof
    assume sp: "py_isspace c"
    with in_low have "c \<in> set s" by (rule nospace)
    with only sp have "c = SPACE" by blast
    then show False using ne by simp
  qed
qed

lemma normalize_twice_general:
  assumes "\<And>s t. set t \<subseteq> set (str_lower e s) \<Longrightarrow> str_lower e t = t"
    and "\<And>s c. c \<in> set (str_lower e s) \<Longrightarrow> py_isspace c \<Longrightarrow> c \<in> set s"
  shows "spec_normalize e (spec_normalize e s) = py_strip (spec_normalize e s)"
    and "\<forall>c\<in>set s. py_isspace c \<longrightarrow> c = SPACE \<Longrightarrow>
         spec_normalize e (spec_normalize e s) = spec_normalize e s"
proof -
  show 1: "spec_normalize e (spec_normalize e s) = py_strip (spec_normalize e s)"
    using assms(1) by (rule spec_normalize_twice)
  assume "\<forall>c\<in>set s. py_isspace c \<longrightarrow> c = SPACE"
  with assms(2) have "\<forall>c\<in>set (spec_normalize e s). \<not> py_isspace c"
    by (rule spec_normalize_no_space)
  then show "spec_normalize e (spec_normalize e s) = spec_normalize e s"
    using 1 by (simp add: py_strip_no_space)
qed

lemmas str_eval = example_env_def ascii_lower_def lower_cp_def py_strip_def py_isspace_def
  SPACE_def HYPHEN_def

section \<open>Normalization applied twice\<close>

text \<open>
  C8, as stated, fails: the hyphen is removed after the strip, so white space other than
  the space that stood behind a leading hyphen (a tab here) is at the start of the
  normalized string, and a second normalization strips it. The string is a hyphen, a
  tab and the letter a, on which \<open>str.lower\<close> changes nothing.
\<close>

theorem normalization_not_idempotent:
  "processed_name example_env (processed_name example_env [45, 9, 97])
     \<noteq> processed_name example_env [45, 9, 97]"
  by (simp add: processed_name_def py_startswith_def str_eval)

text \<open>
  C8, amended: normalizing a second time only strips the white space left at the two
  ends of the normalized string; on every string whose only white space is the space
  character, normalizing twice is normalizing once. This holds for every lowering with
  the two properties of \<open>str.lower\<close> that matter here: a string made of code points
  that the lowering puts out is left as it is, and the lowering puts out no white space
  that was not in its input.
\<close>

theorem normalization_twice:
  assumes "\<And>s t. set t \<subseteq> set (str_lower e s) \<Longrightarrow> str_lower e t = t"
    and "\<And>s c. c \<in> set (str_lower e s) \<Longrightarrow> py_isspace c \<Longrightarrow> c \<in> set s"
  shows "processed_name e (processed_name e s) = py_strip (processed_name e s) \<and>
         ((\<forall>c\<in>set s. py_isspace c \<longrightarrow> c = SPACE) \<longrightarrow>
            processed_name e (processed_name e s) = processed_name e s)"
  using normalize_twice_general[OF assms, where s = s] by (simp add: processed_name_spec)

theorem normalization_twice_witness:
  "processed_name example_env (processed_name example_env (str ''Propan-2-OL ''))
     = processed_name example_env (str ''Propan-2-OL '')"
proof -
  have 1: "\<And>s t. set t \<subseteq> set (str_lower example_env s) \<Longrightarrow> str_lower example_env t = t"
    by (simp add: example_env_def ascii_lower_fixed_points)
  have 2: "\<And>s c. c \<in> set (str_lower example_env s) \<Longrightarrow> py_isspace c \<Longrightarrow> c \<in> set s"
    by (simp add: example_env_def ascii_lower_no_new_space)
  have h: "\<forall>c\<in>set (str ''Propan-2-OL ''). py_isspace c \<longrightarrow> c = SPACE"
    by (simp add: py_isspace_def SPACE_def)
  have "processed_name example_env (processed_name example_env (str ''Propan-2-OL ''))
          = py_strip (processed_name example_env (str ''Propan-2-OL '')) \<and>
        ((\<forall>c\<in>set (str ''Propan-2-OL ''). py_isspace c \<longrightarrow> c = SPACE) \<longrightarrow>
           processed_name example_env (processed_name example_env (str ''Propan-2-OL ''))
             = processed_name example_env (str ''Propan-2-OL ''))"
    by (rule normalization_twice[OF 1 2])
  with h show ?thesis by blast
qed

text \<open>For the lowering of the ASCII letters the two properties hold, so there the statement has no condition.\<close>

lemma normalization_twice_ascii:
  assumes "str_lower e = ascii_lower"
  shows "processed_name e (processed_name e s) = py_strip (processed_name e s) \<and>
         ((\<forall>c\<in>set s. py_isspace c \<longrightarrow> c = SPACE) \<longrightarrow>
            processed_name e (processed_name e s) = processed_name e s)"
proof -
  have 1: "\<And>s t. set t \<subseteq> set (str_lower e s) \<Longrightarrow> str_lower e t = t"
    by (simp add: assms ascii_lower_fixed_points)
  have 2: "\<And>s c. c \<in> set (str_lower e s) \<Longrightarrow> py_isspace c \<Longrightarrow> c \<in> set s"
    by (simp add: assms ascii_lower_no_new_space)
  from normalize_twice_general[OF 1 2, where s = s] show ?thesis by (simp add: processed_name_spec)
qed

section \<open>Answer evaluation\<close>

lemma is_correct_spec:
  "(processed_name e a = processed_name e c \<or> processed_name e a \<in> set (map (processed_name e) alts))
     \<longleftrightarrow> spec_accepts e a c alts"
  by (auto simp: spec_accepts_def processed_name_spec)

lemma handle_answered: "is_current_problem_answered s \<Longrightarrow> handle_answer_submission_st e s = Inr (s, [])"
  by (simp add: handle_answer_submission_st_def)

lemma handle_accepts:
  assumes "\<not> is_current_problem_answered s"
    and "spec_accepts e (student_answer s) (current_correct_name s) (current_alternative_names s)"
  shows "handle_answer_submission_st e s =
           Inr (s\<lparr>is_current_problem_answered := True,
                  disable_answer_input := True,
                  disable_formula_dropdown := True,
                  is_current_problem_correct := True,
                  current_score := current_score s + 1,
                  feedback_message := correct_feedback (current_correct_name s)\<rparr>, [])"
  using assms is_correct_spec[of e "student_answer s" "current_correct_name s" "current_alternative_names s"]
  by (simp add: handle_answer_submission_st_def Let_def)

lemma handle_rejects:
  assumes "\<not> is_current_problem_answered s"
    and "\<not> spec_accepts e (student_answer s) (current_correct_name s) (current_alternative_names s)"
    and "py_index (quiz_problems_list s) (problem_index s) = Inr p"
  shows "\<exists>fb ai reqs. handle_answer_submission_st e s =
           Inr (s\<lparr>is_current_problem_answered := True,
                  disable_answer_input := True,
                  disable_formula_dropdown := True,
                  is_current_problem_correct := False,
                  feedback_message := fb,
                  ai_explanation := ai\<rparr>, reqs)"
  using assms is_correct_spec[of e "student_answer s" "current_correct_name s" "current_alternative_names s"]
  by (auto simp: handle_answer_submission_st_def Let_def)

lemma load_in_range:
  assumes "py_index (quiz_problems_list s) (problem_index s) = Inr p"
    and "problem_index s < total_problems_in_quiz s"
  shows "load_current_problem_details e s =
     Inr (if mol_from_smiles e (smiles p)
          then s\<lparr>current_mol_smiles := Some (smiles p),
                 current_correct_name := name p,
                 current_alternative_names := alternative_names_list p\<rparr>
          else s\<lparr>current_mol_smiles := Some (smiles p),
                 current_correct_name := name p,
                 current_alternative_names := alternative_names_list p,
                 is_current_problem_answered := True,
                 disable_answer_input := True,
                 disable_formula_dropdown := True,
                 feedback_message := load_failed_message,
                 current_mol_smiles := None\<rparr>)"
  using assms
  by (simp add: load_current_problem_details_def Let_def alternative_names_list_def)

lemma load_then_submit:
  assumes "py_index (quiz_problems_list s) (problem_index s) = Inr p"
    and "problem_index s < total_problems_in_quiz s"
    and "mol_from_smiles e (smiles p)"
    and "\<not> is_current_problem_answered s"
  shows "\<exists>s1 s2 reqs.
           load_current_problem_details e s = Inr s1 \<and>
           current_alternative_names s1 = alternative_names_list p \<and>
           handle_answer_submission_st e (s1\<lparr>student_answer := answer\<rparr>) = Inr (s2, reqs) \<and>
           (is_current_problem_correct s2 \<longleftrightarrow>
              spec_accepts e answer (name p) (alternative_names_list p)) \<and>
           (is_current_problem_correct s2 \<longrightarrow> current_score s2 = current_score s + 1)"
proof -
  let ?s1 = "s\<lparr>current_mol_smiles := Some (smiles p),
                 current_correct_name := name p,
                 current_alternative_names := alternative_names_list p\<rparr>"
  let ?t = "?s1\<lparr>student_answer := answer\<rparr>"
  have l: "load_current_problem_details e s = Inr ?s1"
    using load_in_range[OF assms(1,2), of e] assms(3) by simp
  have na: "\<not> is_current_problem_answered ?t" using assms(4) by simp
  have ix: "py_index (quiz_problems_list ?t) (problem_index ?t) = Inr p" using assms(1) by simp
  show ?thesis
  proof (cases "spec_accepts e answer (name p) (alternative_names_list p)")
    case True
    then have "spec_accepts e (student_answer ?t) (current_correct_name ?t) (current_alternative_names ?t)"
      by simp
    from handle_accepts[OF na this] l True show ?thesis by auto
  next
    case False
    then have "\<not> spec_accepts e (student_answer ?t) (current_correct_name ?t) (current_alternative_names ?t)"
      by simp
    from handle_rejects[OF na this ix] l False show ?thesis by auto
  qed
qed

text \<open>
  C1: for every answer and every problem record that is loaded as the current problem
  and can be answered (its structure parses, it is not answered yet), loading and then
  submitting succeeds, and the submission is marked correct exactly when the normalized
  answer equals the normalized canonical name or the normalized form of one of the
  record's alternative names, the normalization being the specification's: lowercase
  (the library's \<open>str.lower\<close>, whatever function it is), strip, drop every space and
  hyphen, nothing else altered.
\<close>

theorem answer_correct_iff_spec_accepts:
  assumes "py_index (quiz_problems_list s) (problem_index s) = Inr p"
    and "problem_index s < total_problems_in_quiz s"
    and "mol_from_smiles e (smiles p)"
    and "\<not> is_current_problem_answered s"
  shows "\<exists>s1 s2 reqs.
           load_current_problem_details e s = Inr s1 \<and>
           handle_answer_submission_st e (s1\<lparr>student_answer := answer\<rparr>) = Inr (s2, reqs) \<and>
           (is_current_problem_correct s2 \<longleftrightarrow>
              spec_accepts e answer (name p) (alternative_names_list p))"
  using load_then_submit[OF assms, of answer] by blast

lemma example_session_facts:
  "py_index (quiz_problems_list example_session) (problem_index example_session) = Inr example_problem"
  "problem_index example_session < total_problems_in_quiz example_session"
  "mol_from_smiles example_env (smiles example_problem)"
  "\<not> is_current_problem_answered example_session"
  by (simp_all add: example_session_def initial_session_def py_index_def example_env_def)

theorem answer_correct_iff_spec_accepts_witness:
  "\<exists>s1 s2 reqs.
     load_current_problem_details example_env example_session = Inr s1 \<and>
     handle_answer_submission_st example_env (s1\<lparr>student_answer := str ''Propan 2-OL''\<rparr>) = Inr (s2, reqs) \<and>
     is_current_problem_correct s2"
proof -
  have "spec_accepts example_env (str ''Propan 2-OL'') (name example_problem) (alternative_names_list example_problem)"
    by (simp add: spec_accepts_def spec_normalize_def example_problem_def mk_problem_def str_eval)
  with answer_correct_iff_spec_accepts[OF example_session_facts, of "str ''Propan 2-OL''"]
  show ?thesis by blast
qed

section \<open>Curated explanations\<close>

lemma custom_explanation_find:
  "custom_explanation e psa entries =
     map_option explanation (find (\<lambda>en. processed_name e (incorrect_name en) = psa) entries)"
  by (induction entries) auto

text \<open>
  C6, as stated, fails: the answer below normalizes like the keys of both entries, and
  the feedback holds the explanation of the first entry only; the explanation of the
  second entry, whose key the answer matches as well, is not in it.
\<close>

theorem second_matching_entry_not_shown:
  "processed_name example_env (str ''Propan 1 ol'') = processed_name example_env (student_answer two_keys_session) \<and>
   map_sum id (\<lambda>r. (feedback_message (fst r), snd r))
     (handle_answer_submission_st example_env two_keys_session)
   = Inr (py_join (str ''<br>'')
            (feedback_parts (str ''propan1ol'') (str ''propan-2-ol'') [] @
             [str ''<hr><b>Explanation for your answer:</b><br>'' @ str ''The hydroxyl group is on carbon 2.'']),
          []) \<and>
   \<not> sublist (str ''Count from the other end.'')
       (py_join (str ''<br>'')
            (feedback_parts (str ''propan1ol'') (str ''propan-2-ol'') [] @
             [str ''<hr><b>Explanation for your answer:</b><br>'' @ str ''The hydroxyl group is on carbon 2.'']))"
proof (intro conjI)
  show "processed_name example_env (str ''Propan 1 ol'') = processed_name example_env (student_answer two_keys_session)"
    by (simp add: two_keys_session_def processed_name_spec spec_normalize_def str_eval)
  show "map_sum id (\<lambda>r. (feedback_message (fst r), snd r))
     (handle_answer_submission_st example_env two_keys_session)
   = Inr (py_join (str ''<br>'')
            (feedback_parts (str ''propan1ol'') (str ''propan-2-ol'') [] @
             [str ''<hr><b>Explanation for your answer:</b><br>'' @ str ''The hydroxyl group is on carbon 2.'']),
          [])"
    by (simp add: handle_answer_submission_st_def Let_def two_keys_session_def two_keys_problem_def
        example_session_def example_problem_def mk_problem_def initial_session_def py_index_def
        processed_name_spec spec_normalize_def str_eval)
  show "\<not> sublist (str ''Count from the other end.'')
       (py_join (str ''<br>'')
            (feedback_parts (str ''propan1ol'') (str ''propan-2-ol'') [] @
             [str ''<hr><b>Explanation for your answer:</b><br>'' @ str ''The hydroxyl group is on carbon 2.'']))"
    by (simp add: feedback_parts_def sublist_Cons_right prefix_Cons)
qed

text \<open>
  C6, amended: an incorrect answer whose normalized form equals the normalized key of a
  common-errors entry of the current problem gets the explanation of the first such
  entry, in the order of the list, appended to the feedback (that entry's own when no
  earlier entry has the same normalized key), no request goes to the explanation
  service, and the generated explanation is left empty.
\<close>

theorem custom_explanation_precedence:
  assumes "\<not> is_current_problem_answered s"
    and "\<not> spec_accepts e (student_answer s) (current_correct_name s) (current_alternative_names s)"
    and "py_index (quiz_problems_list s) (problem_index s) = Inr p"
    and "common_errors p = Some entries"
    and "find (\<lambda>en. processed_name e (incorrect_name en) = processed_name e (student_answer s)) entries = Some en"
  shows "\<exists>s'. handle_answer_submission_st e s = Inr (s', []) \<and>
              \<not> is_current_problem_correct s' \<and>
              feedback_message s' =
                py_join (str ''<br>'')
                  (feedback_parts (student_answer s) (current_correct_name s) (current_alternative_names s) @
                   [str ''<hr><b>Explanation for your answer:</b><br>'' @ explanation en]) \<and>
              ai_explanation s' = []"
  using assms is_correct_spec[of e "student_answer s" "current_correct_name s" "current_alternative_names s"]
  by (simp add: handle_answer_submission_st_def Let_def custom_explanation_find)

theorem custom_explanation_precedence_witness:
  "\<exists>s'. handle_answer_submission_st example_env
            (example_session\<lparr>current_correct_name := str ''propan-2-ol'',
                              current_alternative_names := [str ''isopropanol''],
                              student_answer := str ''Propan-1-ol''\<rparr>) = Inr (s', []) \<and>
        \<not> is_current_problem_correct s' \<and>
        ai_explanation s' = []"
proof -
  let ?s = "example_session\<lparr>current_correct_name := str ''propan-2-ol'',
                              current_alternative_names := [str ''isopropanol''],
                              student_answer := str ''Propan-1-ol''\<rparr>"
  let ?en = "\<lparr>incorrect_name = str ''propan-1-ol'', explanation = str ''The hydroxyl group is on carbon 2.''\<rparr>"
  have 1: "\<not> is_current_problem_answered ?s"
    by (simp add: example_session_def initial_session_def)
  have 2: "\<not> spec_accepts example_env (student_answer ?s) (current_correct_name ?s) (current_alternative_names ?s)"
    by (simp add: spec_accepts_def spec_normalize_def str_eval)
  have 3: "py_index (quiz_problems_list ?s) (problem_index ?s) = Inr example_problem"
    by (simp add: example_session_def initial_session_def py_index_def)
  have 4: "common_errors example_problem = Some [?en]"
    by (simp add: example_problem_def)
  have 5: "find (\<lambda>en. processed_name example_env (incorrect_name en) = processed_name example_env (student_answer ?s)) [?en] = Some ?en"
    by (simp add: processed_name_spec spec_normalize_def str_eval)
  from custom_explanation_precedence[OF 1 2 3 4 5]
  show ?thesis by blast
qed

section \<open>Submitting twice\<close>

text \<open>
  C7: submitting when the current problem is already answered returns at once: no field
  of the session changes, no request is sent, no exception is raised.
\<close>

theorem submit_when_answered_noop: "is_current_problem_answered s \<Longrightarrow> handle_answer_submission_st e s = Inr (s, [])"
  by (simp add: handle_answer_submission_st_def)

theorem submit_when_answered_noop_witness:
  "handle_answer_submission_st example_env (example_session\<lparr>is_current_problem_answered := True\<rparr>)
     = Inr (example_session\<lparr>is_current_problem_answered := True\<rparr>, [])"
  using submit_when_answered_noop[of "example_session\<lparr>is_current_problem_answered := True\<rparr>" example_env]
  by simp

section \<open>Alternative names given as one string\<close>

lemma py_index_map: "py_index (map f xs) i = (case py_index xs i of Inl err \<Rightarrow> Inl err | Inr x \<Rightarrow> Inr (f x))"
proof -
  have 1: "0 \<le> i \<Longrightarrow> i < int (length xs) \<Longrightarrow> map f xs ! nat i = f (xs ! nat i)"
    by (rule nth_map) linarith
  have 2: "i < 0 \<Longrightarrow> - int (length xs) \<le> i \<Longrightarrow>
           map f xs ! nat (int (length xs) + i) = f (xs ! nat (int (length xs) + i))"
    by (rule nth_map) linarith
  show ?thesis by (auto simp: py_index_def 1 2)
qed

lemma alternative_names_list_idem [simp]:
  "alternative_names_list (with_alternatives_as_list p) = alternative_names_list p"
  by (simp add: with_alternatives_as_list_def alternative_names_list_def)

lemma with_alternatives_fields [simp]:
  "smiles (with_alternatives_as_list p) = smiles p"
  "name (with_alternatives_as_list p) = name p"
  "common_errors (with_alternatives_as_list p) = common_errors p"
  by (simp_all add: with_alternatives_as_list_def)

lemma load_as_lists:
  "load_current_problem_details e (as_lists s) =
     (case load_current_problem_details e s of Inl err \<Rightarrow> Inl err | Inr s1 \<Rightarrow> Inr (as_lists s1))"
proof (cases "problem_index s < total_problems_in_quiz s")
  case False
  then show ?thesis by (simp add: load_current_problem_details_def as_lists_def)
next
  case True
  show ?thesis
  proof (cases "py_index (quiz_problems_list s) (problem_index s)")
    case (Inl err)
    then show ?thesis using True
      by (simp add: load_current_problem_details_def as_lists_def py_index_map)
  next
    case (Inr p)
    have 1: "py_index (quiz_problems_list (as_lists s)) (problem_index (as_lists s)) = Inr (with_alternatives_as_list p)"
      using Inr by (simp add: as_lists_def py_index_map)
    have 2: "problem_index (as_lists s) < total_problems_in_quiz (as_lists s)"
      using True by (simp add: as_lists_def)
    show ?thesis
      unfolding load_in_range[OF 1 2] load_in_range[OF Inr True]
      by (simp add: as_lists_def)
  qed
qed

lemma handle_as_lists:
  "handle_answer_submission_st e (as_lists s) =
     (case handle_answer_submission_st e s of
        Inl err \<Rightarrow> Inl err
      | Inr (s', reqs) \<Rightarrow> Inr (as_lists s', reqs))"
  by (cases "py_index (quiz_problems_list s) (problem_index s)")
     (simp_all add: handle_answer_submission_st_def Let_def as_lists_def py_index_map)

text \<open>
  C9: loading a problem sets the current alternative names to the record's names as a
  sequence, a single string becoming the list of that string and a missing key the empty
  list; an answer submitted then is marked correct exactly when it normalizes like the
  name or like that lone alternative (like the name only, when the key is missing), so
  the lone alternative itself is accepted and scores; and loading and submitting on the
  session whose records hold sequences gives the same results.
\<close>

theorem single_alternative_wrapped:
  assumes "py_index (quiz_problems_list s) (problem_index s) = Inr p"
    and "problem_index s < total_problems_in_quiz s"
  shows "\<exists>s1. load_current_problem_details e s = Inr s1 \<and>
           current_alternative_names s1 = alternative_names_list p \<and>
           (alternative_names p = Some (AltStr a) \<longrightarrow> current_alternative_names s1 = [a]) \<and>
           (alternative_names p = None \<longrightarrow> current_alternative_names s1 = []) \<and>
           load_current_problem_details e (as_lists s) = Inr (as_lists s1) \<and>
           handle_answer_submission_st e (as_lists (s1\<lparr>student_answer := answer\<rparr>)) =
             (case handle_answer_submission_st e (s1\<lparr>student_answer := answer\<rparr>) of
                Inl err \<Rightarrow> Inl err
              | Inr (s2, reqs) \<Rightarrow> Inr (as_lists s2, reqs)) \<and>
           (mol_from_smiles e (smiles p) \<and> \<not> is_current_problem_answered s \<longrightarrow>
              (\<exists>s2 reqs.
                 handle_answer_submission_st e (s1\<lparr>student_answer := answer\<rparr>) = Inr (s2, reqs) \<and>
                 (alternative_names p = Some (AltStr a) \<longrightarrow>
                    (is_current_problem_correct s2 \<longleftrightarrow>
                       spec_normalize e answer = spec_normalize e (name p) \<or>
                       spec_normalize e answer = spec_normalize e a) \<and>
                    (is_current_problem_correct s2 \<longleftrightarrow> spec_accepts e answer (name p) [a]) \<and>
                    (answer = a \<longrightarrow> is_current_problem_correct s2 \<and>
                                     current_score s2 = current_score s + 1)) \<and>
                 (alternative_names p = None \<longrightarrow>
                    (is_current_problem_correct s2 \<longleftrightarrow>
                       spec_normalize e answer = spec_normalize e (name p)))))"
proof -
  from load_in_range[OF assms, of e] obtain s1 where
    l: "load_current_problem_details e s = Inr s1" and
    a: "current_alternative_names s1 = alternative_names_list p"
    by (cases "mol_from_smiles e (smiles p)") auto
  have la: "load_current_problem_details e (as_lists s) = Inr (as_lists s1)"
    using load_as_lists[of e s] l by simp
  have sub: "\<exists>s2 reqs.
                 handle_answer_submission_st e (s1\<lparr>student_answer := answer\<rparr>) = Inr (s2, reqs) \<and>
                 (alternative_names p = Some (AltStr a) \<longrightarrow>
                    (is_current_problem_correct s2 \<longleftrightarrow>
                       spec_normalize e answer = spec_normalize e (name p) \<or>
                       spec_normalize e answer = spec_normalize e a) \<and>
                    (is_current_problem_correct s2 \<longleftrightarrow> spec_accepts e answer (name p) [a]) \<and>
                    (answer = a \<longrightarrow> is_current_problem_correct s2 \<and>
                                     current_score s2 = current_score s + 1)) \<and>
                 (alternative_names p = None \<longrightarrow>
                    (is_current_problem_correct s2 \<longleftrightarrow>
                       spec_normalize e answer = spec_normalize e (name p)))"
    if ok: "mol_from_smiles e (smiles p) \<and> \<not> is_current_problem_answered s"
  proof -
    from load_then_submit[OF assms, of e answer] ok l obtain s2 reqs where
      h: "handle_answer_submission_st e (s1\<lparr>student_answer := answer\<rparr>) = Inr (s2, reqs)" and
      c: "is_current_problem_correct s2 \<longleftrightarrow> spec_accepts e answer (name p) (alternative_names_list p)" and
      sc: "is_current_problem_correct s2 \<longrightarrow> current_score s2 = current_score s + 1"
      by auto
    show ?thesis
      using h c sc by (auto simp: alternative_names_list_def spec_accepts_def)
  qed
  from l a la sub show ?thesis
    by (auto simp: handle_as_lists alternative_names_list_def)
qed

theorem single_alternative_wrapped_witness:
  "\<exists>s1 s2 reqs.
     load_current_problem_details example_env example_session = Inr s1 \<and>
     current_alternative_names s1 = [str ''isopropanol''] \<and>
     load_current_problem_details example_env (as_lists example_session) = Inr (as_lists s1) \<and>
     handle_answer_submission_st example_env (s1\<lparr>student_answer := str ''isopropanol''\<rparr>) = Inr (s2, reqs) \<and>
     is_current_problem_correct s2 \<and>
     current_score s2 = current_score example_session + 1"
proof -
  have 3: "alternative_names example_problem = Some (AltStr (str ''isopropanol''))"
    by (simp add: example_problem_def)
  from single_alternative_wrapped[OF example_session_facts(1,2), of example_env "str ''isopropanol''" "str ''isopropanol''"]
    3 example_session_facts(3,4)
  show ?thesis by blast
qed

section \<open>Sampling and the start of a quiz\<close>

lemma length_sample_pool: "length (sample_pool rnd i pool k) = k"
  by (induction k arbitrary: i pool) (auto simp: Let_def)

lemma mset_pool_step:
  assumes "j < length pool"
  shows "add_mset (pool ! j) (mset (take (length pool - 1) (pool[j := pool ! (length pool - 1)]))) = mset pool"
proof -
  from assms have "pool \<noteq> []" by auto
  then obtain ys z where p: "pool = ys @ [z]" by (metis rev_exhaust)
  show ?thesis
  proof (cases "j < length ys")
    case True
    then have "ys ! j \<in># mset ys" by simp
    with True show ?thesis
      by (simp add: p nth_append list_update_append mset_update)
  next
    case False
    with assms p have "j = length ys" by simp
    then show ?thesis by (simp add: p)
  qed
qed

lemma mset_sample_pool: "k \<le> length pool \<Longrightarrow> mset (sample_pool rnd i pool k) \<subseteq># mset pool"
proof (induction k arbitrary: i pool)
  case 0
  then show ?case by simp
next
  case (Suc k)
  let ?m = "length pool"
  let ?j = "rnd i mod ?m"
  let ?pool' = "take (?m - 1) (pool[?j := pool ! (?m - 1)])"
  from Suc.prems have pos: "0 < ?m" by auto
  then have j: "?j < ?m" by simp
  have "k \<le> length ?pool'" using Suc.prems by simp
  then have ih: "mset (sample_pool rnd (Suc i) ?pool' k) \<subseteq># mset ?pool'" by (rule Suc.IH)
  have "mset (sample_pool rnd i pool (Suc k)) = add_mset (pool ! ?j) (mset (sample_pool rnd (Suc i) ?pool' k))"
    by (simp add: Let_def)
  also have "\<dots> \<subseteq># add_mset (pool ! ?j) (mset ?pool')" using ih by simp
  also have "\<dots> = mset pool" using mset_pool_step[OF j] .
  finally show ?case .
qed

lemma set_sample_pool: "k \<le> length pool \<Longrightarrow> set (sample_pool rnd i pool k) \<subseteq> set pool"
  using mset_sample_pool[of k pool rnd i] set_mset_mono by fastforce

lemma distinct_sample_pool:
  assumes "k \<le> length pool" and "distinct pool"
  shows "distinct (sample_pool rnd i pool k)"
proof -
  have "count (mset (sample_pool rnd i pool k)) x \<le> 1" for x
  proof -
    have "count (mset (sample_pool rnd i pool k)) x \<le> count (mset pool) x"
      using mset_sample_pool[OF assms(1)] by (simp add: mset_subset_eq_count)
    also have "\<dots> \<le> 1" using assms(2) by (simp add: distinct_count_atmost_1)
    finally show ?thesis .
  qed
  then show ?thesis unfolding distinct_count_atmost_1
    by (metis count_mset_0_iff le_antisym not_less_eq_eq not_in_iff One_nat_def le_zero_eq nat_le_linear)
qed

lemma mset_sample_pool_all: "mset (sample_pool rnd i pool (length pool)) = mset pool"
proof -
  have "mset (sample_pool rnd i pool (length pool)) \<subseteq># mset pool"
    by (rule mset_sample_pool) simp
  moreover have "size (mset (sample_pool rnd i pool (length pool))) = size (mset pool)"
    by (simp add: length_sample_pool)
  ultimately show ?thesis
  proof -
    assume sub: "mset (sample_pool rnd i pool (length pool)) \<subseteq># mset pool"
      and sz: "size (mset (sample_pool rnd i pool (length pool))) = size (mset pool)"
    from sub obtain C where C: "mset pool = mset (sample_pool rnd i pool (length pool)) + C"
      by (auto simp: mset_subset_eq_exists_conv)
    then have "size (mset pool) = size (mset (sample_pool rnd i pool (length pool))) + size C"
      by (metis size_union)
    with sz have "C = {#}" by simp
    with C show ?thesis by simp
  qed
qed


lemma filtered_problems_filter:
  "filtered_problems cat cats diffs =
     filter (\<lambda>p. (cats \<noteq> [] \<longrightarrow> get_in (category p) cats) \<and>
                 (diffs \<noteq> [] \<longrightarrow> get_in (difficulty p) diffs)) cat"
  by (simp add: filtered_problems_def Let_def)

lemma filtered_problems_no_selection: "filtered_problems cat [] [] = cat"
  by (simp add: filtered_problems_filter)

lemma setup_no_match:
  assumes "selected_categories s \<noteq> [] \<or> selected_difficulties s \<noteq> []"
    and "filtered_problems cat (selected_categories s) (selected_difficulties s) = []"
  shows "setup_new_quiz_st e rnd cat s = Inr (NoMatchingProblems, s)"
  using assms by (simp add: setup_new_quiz_st_def Let_def)

lemma setup_runs:
  assumes F: "filtered_problems cat (selected_categories s) (selected_difficulties s) = F"
    and ne: "F \<noteq> []" and req: "1 \<le> num_problems_requested s"
  shows "setup_new_quiz_st e rnd cat s =
     (case load_current_problem_details e
             (quiz_reset s (sample_pool rnd 0 F (nat (min (num_problems_requested s) (int (length F)))))) of
        Inl err \<Rightarrow> Inl err
      | Inr s' \<Rightarrow> Inr (Started, s'))"
proof -
  let ?k = "min (num_problems_requested s) (int (length F))"
  from ne have "1 \<le> int (length F)" by (cases F) auto
  with req have k: "1 \<le> ?k" "?k \<le> int (length F)" by auto
  then have rs: "random_sample rnd F ?k = Inr (sample_pool rnd 0 F (nat ?k))"
    by (simp add: random_sample_def)
  have len: "int (length (sample_pool rnd 0 F (nat ?k))) = ?k"
    using k by (simp add: length_sample_pool)
  from k(1) have "?k \<noteq> 0" by linarith
  then have k0: "(?k = 0) = False" by blast
  show ?thesis
    using F ne
    by (simp add: setup_new_quiz_st_def Let_def quiz_reset_def k0 rs len)
qed

lemma setup_started_elim:
  assumes "setup_new_quiz_st e rnd cat s = Inr (Started, s')"
  shows "filtered_problems cat (selected_categories s) (selected_difficulties s) \<noteq> [] \<and>
         1 \<le> num_problems_requested s"
proof -
  let ?F = "filtered_problems cat (selected_categories s) (selected_difficulties s)"
  have ne: "?F \<noteq> []"
  proof
    assume e: "?F = []"
    show False
    proof (cases "selected_categories s \<noteq> [] \<or> selected_difficulties s \<noteq> []")
      case True
      from setup_no_match[OF True e] assms show False by simp
    next
      case False
      then have "cat = []" using e by (simp add: filtered_problems_no_selection)
      with False e assms show False by (simp add: setup_new_quiz_st_def Let_def)
    qed
  qed
  have "1 \<le> num_problems_requested s"
  proof (rule ccontr)
    assume "\<not> 1 \<le> num_problems_requested s"
    then have le: "num_problems_requested s \<le> 0" by simp
    then have m: "min (num_problems_requested s) (int (length ?F)) = num_problems_requested s" by simp
    from assms ne m le show False
      by (auto simp: setup_new_quiz_st_def Let_def random_sample_def split: if_splits)
  qed
  with ne show ?thesis by simp
qed

lemma get_in_iff: "get_in v sel \<longleftrightarrow> (\<exists>x \<in> set sel. v = Some x)"
  by (cases v) (auto simp: get_in_def)

lemma filtered_problems_eligible: "filtered_problems cat cats diffs = filter (spec_eligible cats diffs) cat"
  unfolding filtered_problems_filter by (rule filter_cong) (simp_all add: spec_eligible_def get_in_iff)

lemma load_frame:
  assumes "load_current_problem_details e s = Inr s'"
  shows "quiz_problems_list s' = quiz_problems_list s"
    and "problem_index s' = problem_index s"
    and "total_problems_in_quiz s' = total_problems_in_quiz s"
    and "current_score s' = current_score s"
    and "app_stage s' = app_stage s"
    and "selected_categories s' = selected_categories s"
    and "selected_difficulties s' = selected_difficulties s"
    and "num_problems_requested s' = num_problems_requested s"
    and "is_current_problem_answered s \<Longrightarrow> is_current_problem_answered s'"
  using assms
  by (auto simp: load_current_problem_details_def Let_def split: if_splits sum.splits)

lemma py_index_in_range:
  "0 \<le> i \<Longrightarrow> i < int (length xs) \<Longrightarrow> py_index xs i = Inr (xs ! nat i)"
  by (simp add: py_index_def)

lemma load_total:
  assumes "0 \<le> problem_index s"
    and "total_problems_in_quiz s = int (length (quiz_problems_list s))"
  shows "\<exists>s'. load_current_problem_details e s = Inr s'"
proof (cases "problem_index s < total_problems_in_quiz s")
  case True
  with assms have "py_index (quiz_problems_list s) (problem_index s) = Inr (quiz_problems_list s ! nat (problem_index s))"
    by (simp add: py_index_in_range)
  from load_in_range[OF this True, of e] show ?thesis by blast
next
  case False
  then show ?thesis by (simp add: load_current_problem_details_def)
qed

lemma setup_started:
  assumes "setup_new_quiz_st e rnd cat s = Inr (Started, s')"
  shows "quiz_problems_list s' =
           sample_pool rnd 0 (filtered_problems cat (selected_categories s) (selected_difficulties s))
             (nat (min (num_problems_requested s)
                       (int (length (filtered_problems cat (selected_categories s) (selected_difficulties s))))))"
    and "total_problems_in_quiz s' = int (length (quiz_problems_list s'))"
    and "problem_index s' = 0"
    and "current_score s' = 0"
    and "app_stage s' = Quiz"
    and "filtered_problems cat (selected_categories s) (selected_difficulties s) \<noteq> []"
    and "1 \<le> num_problems_requested s"
proof -
  let ?F = "filtered_problems cat (selected_categories s) (selected_difficulties s)"
  let ?r = "quiz_reset s (sample_pool rnd 0 ?F (nat (min (num_problems_requested s) (int (length ?F)))))"
  from setup_started_elim[OF assms] have ne: "?F \<noteq> []" and req: "1 \<le> num_problems_requested s"
    by simp_all
  from setup_runs[OF refl ne req, of e rnd] assms
  have l: "load_current_problem_details e ?r = Inr s'"
    by (auto split: sum.splits)
  note fr = load_frame[OF l]
  show "quiz_problems_list s' = sample_pool rnd 0 ?F (nat (min (num_problems_requested s) (int (length ?F))))"
    using fr(1) by (simp add: quiz_reset_def)
  show "total_problems_in_quiz s' = int (length (quiz_problems_list s'))"
    using fr(1,3) by (simp add: quiz_reset_def)
  show "problem_index s' = 0" using fr(2) by (simp add: quiz_reset_def)
  show "current_score s' = 0" using fr(4) by (simp add: quiz_reset_def)
  show "app_stage s' = Quiz" using fr(5) by (simp add: quiz_reset_def)
  show "?F \<noteq> []" by (rule ne)
  show "1 \<le> num_problems_requested s" by (rule req)
qed

lemma setup_succeeds:
  assumes "filtered_problems cat (selected_categories s) (selected_difficulties s) \<noteq> []"
    and "1 \<le> num_problems_requested s"
  shows "\<exists>s'. setup_new_quiz_st e rnd cat s = Inr (Started, s')"
proof -
  let ?F = "filtered_problems cat (selected_categories s) (selected_difficulties s)"
  let ?r = "quiz_reset s (sample_pool rnd 0 ?F (nat (min (num_problems_requested s) (int (length ?F)))))"
  have "\<exists>s'. load_current_problem_details e ?r = Inr s'"
    by (rule load_total) (simp_all add: quiz_reset_def)
  then show ?thesis
    unfolding setup_runs[OF refl assms, of e rnd] by auto
qed

section \<open>Filters and the start of a quiz\<close>

lemma sample_pool_first:
  assumes "j < length pool" and "0 < k"
  shows "pool ! j \<in> set (sample_pool (\<lambda>i. j) 0 pool k)"
proof -
  from assms(2) obtain k' where "k = Suc k'" by (cases k) auto
  with assms(1) show ?thesis by (simp add: Let_def)
qed

text \<open>
  C2: with both selections empty the whole question bank is eligible; in general the
  eligible records are those of the bank, in its order, whose category is in a non-empty
  selection of categories and whose difficulty is in a non-empty selection of
  difficulties; when a selection is non-empty and no record is eligible, the start ends
  with NoMatchingProblems and returns the session as it was, so it stays on the setup
  page; every problem of a started quiz is an eligible record of the bank; when some
  record is eligible and at least one problem is requested the quiz starts, and its
  problems are drawn from the list of the eligible records, which is the whole bank when
  both selections are empty; and every eligible record is drawn for some draws.
\<close>

theorem filter_policy:
  "filtered_problems cat [] [] = cat \<and>
   filtered_problems cat cats diffs = filter (spec_eligible cats diffs) cat \<and>
   ((selected_categories s \<noteq> [] \<or> selected_difficulties s \<noteq> []) \<and>
    filtered_problems cat (selected_categories s) (selected_difficulties s) = [] \<longrightarrow>
      setup_new_quiz_st e rnd cat s = Inr (NoMatchingProblems, s) \<and>
      (app_stage s = Setup \<longrightarrow> start_practice e rnd cat s = Inr (NoMatchingProblems, s))) \<and>
   (\<forall>s'. setup_new_quiz_st e rnd cat s = Inr (Started, s') \<longrightarrow>
      (\<forall>p \<in> set (quiz_problems_list s').
         p \<in> set cat \<and> spec_eligible (selected_categories s) (selected_difficulties s) p)) \<and>
   (filter (spec_eligible (selected_categories s) (selected_difficulties s)) cat \<noteq> [] \<and>
    1 \<le> num_problems_requested s \<longrightarrow>
      (\<exists>s'. setup_new_quiz_st e rnd cat s = Inr (Started, s') \<and>
            quiz_problems_list s' =
              sample_pool rnd 0 (filter (spec_eligible (selected_categories s) (selected_difficulties s)) cat)
                (nat (min (num_problems_requested s)
                          (int (length (filter (spec_eligible (selected_categories s) (selected_difficulties s)) cat))))))) \<and>
   (selected_categories s = [] \<and> selected_difficulties s = [] \<and> cat \<noteq> [] \<and>
    1 \<le> num_problems_requested s \<longrightarrow>
      (\<exists>s'. setup_new_quiz_st e rnd cat s = Inr (Started, s') \<and>
            quiz_problems_list s' =
              sample_pool rnd 0 cat (nat (min (num_problems_requested s) (int (length cat)))))) \<and>
   (\<forall>p \<in> set cat.
      spec_eligible (selected_categories s) (selected_difficulties s) p \<and> 1 \<le> num_problems_requested s \<longrightarrow>
        (\<exists>draws s'. setup_new_quiz_st e draws cat s = Inr (Started, s') \<and>
                    p \<in> set (quiz_problems_list s')))"
proof -
  let ?F = "filtered_problems cat (selected_categories s) (selected_difficulties s)"
  let ?E = "filter (spec_eligible (selected_categories s) (selected_difficulties s)) cat"
  let ?k = "nat (min (num_problems_requested s) (int (length ?F)))"
  have FE: "?F = ?E" by (rule filtered_problems_eligible)
  have c1: "filtered_problems cat [] [] = cat" by (rule filtered_problems_no_selection)
  have c2: "filtered_problems cat cats diffs = filter (spec_eligible cats diffs) cat"
    by (rule filtered_problems_eligible)
  have c3: "setup_new_quiz_st e rnd cat s = Inr (NoMatchingProblems, s) \<and>
      (app_stage s = Setup \<longrightarrow> start_practice e rnd cat s = Inr (NoMatchingProblems, s))"
    if "(selected_categories s \<noteq> [] \<or> selected_difficulties s \<noteq> []) \<and> ?F = []"
    using that setup_no_match[of s cat e rnd] by (auto simp: start_practice_def)
  have c4: "\<forall>p \<in> set (quiz_problems_list s').
         p \<in> set cat \<and> spec_eligible (selected_categories s) (selected_difficulties s) p"
    if st: "setup_new_quiz_st e rnd cat s = Inr (Started, s')" for s'
  proof -
    have "?k \<le> length ?F" by simp
    then have "set (sample_pool rnd 0 ?F ?k) \<subseteq> set ?F" by (rule set_sample_pool)
    then have "set (quiz_problems_list s') \<subseteq> set ?F" using setup_started(1)[OF st] by simp
    then show ?thesis by (auto simp: filtered_problems_eligible)
  qed
  have run: "\<exists>s'. setup_new_quiz_st e draws cat s = Inr (Started, s') \<and>
            quiz_problems_list s' = sample_pool draws 0 ?F ?k"
    if "?F \<noteq> []" "1 \<le> num_problems_requested s" for draws
  proof -
    from setup_succeeds[OF that, of e draws] obtain s' where
      st: "setup_new_quiz_st e draws cat s = Inr (Started, s')" by blast
    with setup_started(1)[OF st] show ?thesis by blast
  qed
  have c5: "\<exists>s'. setup_new_quiz_st e rnd cat s = Inr (Started, s') \<and>
            quiz_problems_list s' =
              sample_pool rnd 0 ?E (nat (min (num_problems_requested s) (int (length ?E))))"
    if "?E \<noteq> [] \<and> 1 \<le> num_problems_requested s"
    using run[of rnd] that by (simp add: FE)
  have c6: "\<exists>s'. setup_new_quiz_st e rnd cat s = Inr (Started, s') \<and>
            quiz_problems_list s' =
              sample_pool rnd 0 cat (nat (min (num_problems_requested s) (int (length cat))))"
    if "selected_categories s = [] \<and> selected_difficulties s = [] \<and> cat \<noteq> [] \<and>
        1 \<le> num_problems_requested s"
    using run[of rnd] that by (simp add: filtered_problems_no_selection)
  have c7: "\<exists>draws s'. setup_new_quiz_st e draws cat s = Inr (Started, s') \<and>
                    p \<in> set (quiz_problems_list s')"
    if p: "p \<in> set cat" and
       el: "spec_eligible (selected_categories s) (selected_difficulties s) p \<and> 1 \<le> num_problems_requested s"
    for p
  proof -
    from p el have "p \<in> set ?F" by (simp add: filtered_problems_eligible)
    then obtain j where j: "j < length ?F" "?F ! j = p" by (auto simp: in_set_conv_nth)
    then have ne: "?F \<noteq> []" by auto
    then have "1 \<le> int (length ?F)" by (cases ?F) auto
    with el have k: "0 < ?k" by linarith
    from run[OF ne, of "\<lambda>i. j"] el obtain s' where
      s': "setup_new_quiz_st e (\<lambda>i. j) cat s = Inr (Started, s')"
          "quiz_problems_list s' = sample_pool (\<lambda>i. j) 0 ?F ?k" by blast
    from sample_pool_first[OF j(1) k] j(2) s'(2) have "p \<in> set (quiz_problems_list s')" by simp
    with s'(1) show ?thesis by blast
  qed
  from c1 c2 c3 c4 c5 c6 c7 show ?thesis by blast
qed

theorem filter_policy_witness:
  "setup_new_quiz_st example_env (\<lambda>i. 0) [example_problem]
     (initial_session\<lparr>selected_categories := [str ''Alkene'']\<rparr>)
   = Inr (NoMatchingProblems, initial_session\<lparr>selected_categories := [str ''Alkene'']\<rparr>) \<and>
   (\<exists>s'. setup_new_quiz_st example_env (\<lambda>i. 0) [example_problem] initial_session = Inr (Started, s') \<and>
         quiz_problems_list s' = [example_problem])"
proof -
  let ?s = "initial_session\<lparr>selected_categories := [str ''Alkene'']\<rparr>"
  have 1: "selected_categories ?s \<noteq> [] \<or> selected_difficulties ?s \<noteq> []" by simp
  have 2: "filtered_problems [example_problem] (selected_categories ?s) (selected_difficulties ?s) = []"
    by (simp add: filtered_problems_def get_in_def example_problem_def mk_problem_def initial_session_def)
  from filter_policy[of "[example_problem]" "[]" "[]" ?s example_env "\<lambda>i. 0"] 1 2
  have a: "setup_new_quiz_st example_env (\<lambda>i. 0) [example_problem] ?s = Inr (NoMatchingProblems, ?s)"
    by blast
  have 3: "selected_categories initial_session = [] \<and> selected_difficulties initial_session = [] \<and>
           [example_problem] \<noteq> [] \<and> 1 \<le> num_problems_requested initial_session"
    by (simp add: initial_session_def)
  from filter_policy[of "[example_problem]" "[]" "[]" initial_session example_env "\<lambda>i. 0"] 3
  have "\<exists>s'. setup_new_quiz_st example_env (\<lambda>i. 0) [example_problem] initial_session = Inr (Started, s') \<and>
         quiz_problems_list s' =
           sample_pool (\<lambda>i. 0) 0 [example_problem]
             (nat (min (num_problems_requested initial_session) (int (length [example_problem]))))"
    by blast
  moreover have "sample_pool (\<lambda>i. 0) 0 [example_problem]
             (nat (min (num_problems_requested initial_session) (int (length [example_problem]))))
           = [example_problem]"
    by (simp add: initial_session_def Let_def)
  ultimately show ?thesis using a by simp
qed

section \<open>The problems of a started quiz\<close>

lemma length_practice_problems: "length practice_problems = 96"
  by (simp add: practice_problems_def)

lemma practice_problems_duplicate: "practice_problems ! 67 = practice_problems ! 92"
  by (simp add: practice_problems_def)

lemma practice_problems_not_distinct: "\<not> distinct practice_problems"
proof
  assume "distinct practice_problems"
  moreover have "(67::nat) < length practice_problems" "(92::nat) < length practice_problems"
    by (simp_all add: length_practice_problems)
  ultimately have "practice_problems ! 67 \<noteq> practice_problems ! 92"
    by (simp add: nth_eq_iff_index_eq)
  with practice_problems_duplicate show False by simp
qed


lemma quiz_sample_properties:
  assumes "setup_new_quiz_st e rnd cat s = Inr (Started, s')"
  shows "int (length (quiz_problems_list s')) =
           min (num_problems_requested s)
               (int (length (filtered_problems cat (selected_categories s) (selected_difficulties s))))"
    and "mset (quiz_problems_list s') \<subseteq>#
           mset (filtered_problems cat (selected_categories s) (selected_difficulties s))"
    and "distinct (filtered_problems cat (selected_categories s) (selected_difficulties s))
           \<Longrightarrow> distinct (quiz_problems_list s')"
    and "problem_index s' = 0" and "current_score s' = 0"
proof -
  let ?F = "filtered_problems cat (selected_categories s) (selected_difficulties s)"
  let ?k = "nat (min (num_problems_requested s) (int (length ?F)))"
  note st = setup_started[OF assms]
  have k: "?k \<le> length ?F" by simp
  show "int (length (quiz_problems_list s')) = min (num_problems_requested s) (int (length ?F))"
    using st(1,7) by (simp add: length_sample_pool)
  show "mset (quiz_problems_list s') \<subseteq># mset ?F"
    unfolding st(1) using k by (rule mset_sample_pool)
  show "distinct ?F \<Longrightarrow> distinct (quiz_problems_list s')"
    unfolding st(1) using k by (rule distinct_sample_pool)
  show "problem_index s' = 0" by (rule st(3))
  show "current_score s' = 0" by (rule st(4))
qed

text \<open>
  C3 on the question bank of the program: with no filter and 96 problems requested, the
  quiz starts with all 96 rows of the bank whatever the draws are, and the list has a
  duplicate entry, because rows 68 and 93 of the bank are the same record
  (2-bromobut-3-en-1-ol). The sampling itself takes no position twice
  (\<open>quiz_sample_properties\<close>).
\<close>

theorem duplicate_problem_in_quiz:
  "\<exists>s'. setup_new_quiz_st e rnd practice_problems (initial_session\<lparr>num_problems_requested := 96\<rparr>)
           = Inr (Started, s') \<and>
        length (quiz_problems_list s') = 96 \<and>
        \<not> distinct (quiz_problems_list s')"
proof -
  let ?s = "initial_session\<lparr>num_problems_requested := 96\<rparr>"
  have sel: "selected_categories ?s = []" "selected_difficulties ?s = []" "num_problems_requested ?s = 96"
    by (simp_all add: initial_session_def)
  have F: "filtered_problems practice_problems (selected_categories ?s) (selected_difficulties ?s) = practice_problems"
    by (simp add: sel filtered_problems_no_selection)
  have ne: "practice_problems \<noteq> []" using length_practice_problems by auto
  from setup_succeeds[of practice_problems ?s e rnd] F ne sel(3)
  obtain s' where st: "setup_new_quiz_st e rnd practice_problems ?s = Inr (Started, s')" by auto
  have "quiz_problems_list s' = sample_pool rnd 0 practice_problems (length practice_problems)"
    using setup_started(1)[OF st, unfolded F sel(3)] by (simp add: length_practice_problems)
  then have m: "mset (quiz_problems_list s') = mset practice_problems"
    by (simp add: mset_sample_pool_all)
  then have "distinct (quiz_problems_list s') = distinct practice_problems"
    by (rule mset_eq_imp_distinct_iff)
  moreover have "length (quiz_problems_list s') = 96"
    using m length_practice_problems by (metis size_mset)
  ultimately show ?thesis using st practice_problems_not_distinct by blast
qed

theorem duplicate_problem_in_quiz_witness:
  "\<exists>s'. setup_new_quiz_st example_env (\<lambda>i. 0) practice_problems
            (initial_session\<lparr>num_problems_requested := 96\<rparr>) = Inr (Started, s') \<and>
        \<not> distinct (quiz_problems_list s')"
  using duplicate_problem_in_quiz[of example_env "\<lambda>i. 0"] by blast

section \<open>The score during a quiz\<close>

lemma quiz_inv_load:
  assumes "quiz_inv s" and "load_current_problem_details e s = Inr s'"
  shows "quiz_inv s'"
  using assms(1) load_frame[OF assms(2)]
  by (auto simp: quiz_inv_def split: if_splits)

lemma quiz_inv_load_total:
  assumes "quiz_inv s"
  shows "\<exists>s'. load_current_problem_details e s = Inr s'"
  using assms by (intro load_total) (simp_all add: quiz_inv_def)

lemma display_quiz_page:
  assumes "quiz_inv s"
  shows "\<exists>s'. display_quiz_page_st e s = Inr s' \<and> quiz_inv s' \<and>
              current_score s' = current_score s \<and>
              quiz_problems_list s' = quiz_problems_list s"
proof -
  obtain s1 where s1: "(if no_smiles s \<and> problem_index s < total_problems_in_quiz s \<and> quiz_problems_list s \<noteq> []
            then load_current_problem_details e s else Inr s) = Inr s1"
    using quiz_inv_load_total[OF assms, of e] by (cases "no_smiles s \<and> problem_index s < total_problems_in_quiz s \<and> quiz_problems_list s \<noteq> []") auto
  have inv1: "quiz_inv s1" and sc: "current_score s1 = current_score s"
    and ls: "quiz_problems_list s1 = quiz_problems_list s"
    using s1 assms quiz_inv_load[OF assms] load_frame(1,4)
    by (auto split: if_splits)
  have inv2: "quiz_inv (s1\<lparr>is_current_problem_answered := True\<rparr>)"
    using inv1 by (auto simp: quiz_inv_def split: if_splits)
  show ?thesis
    using s1 inv1 inv2 sc ls by (simp add: display_quiz_page_st_def)
qed

lemma app_router_inv:
  assumes "quiz_inv s"
  shows "\<exists>s'. app_router e s = Inr s' \<and> quiz_inv s' \<and>
              current_score s' = current_score s \<and>
              quiz_problems_list s' = quiz_problems_list s"
proof (cases "app_stage s")
  case Setup
  with assms show ?thesis by (simp add: app_router_def)
next
  case Results
  with assms show ?thesis by (simp add: app_router_def)
next
  case Quiz
  have "quiz_inv (s\<lparr>app_stage := Setup\<rparr>)" using assms by (simp add: quiz_inv_def)
  with Quiz display_quiz_page[OF assms, of e] show ?thesis
    by (simp add: app_router_def)
qed

lemma handle_inv:
  assumes "quiz_inv s" and "app_stage s = Quiz" and "\<not> is_current_problem_answered s"
  shows "\<exists>s' reqs. handle_answer_submission_st e s = Inr (s', reqs) \<and> quiz_inv s' \<and>
              current_score s \<le> current_score s' \<and>
              quiz_problems_list s' = quiz_problems_list s"
proof (cases "spec_accepts e (student_answer s) (current_correct_name s) (current_alternative_names s)")
  case True
  show ?thesis
    unfolding handle_accepts[OF assms(3) True]
    using assms by (simp add: quiz_inv_def)
next
  case False
  have "py_index (quiz_problems_list s) (problem_index s) = Inr (quiz_problems_list s ! nat (problem_index s))"
    using assms(1,2) by (simp add: quiz_inv_def py_index_in_range)
  from handle_rejects[OF assms(3) False this] obtain fb ai reqs where
    "handle_answer_submission_st e s =
           Inr (s\<lparr>is_current_problem_answered := True,
                  disable_answer_input := True,
                  disable_formula_dropdown := True,
                  is_current_problem_correct := False,
                  feedback_message := fb,
                  ai_explanation := ai\<rparr>, reqs)" by blast
  then show ?thesis using assms by (simp add: quiz_inv_def)
qed

lemma go_to_next_inv:
  assumes "quiz_inv s" and "app_stage s = Quiz" and "is_current_problem_answered s"
  shows "\<exists>s'. go_to_next_problem_callback e s = Inr s' \<and> quiz_inv s' \<and>
              current_score s' = current_score s \<and>
              quiz_problems_list s' = quiz_problems_list s"
proof -
  let ?s1 = "s\<lparr>problem_index := problem_index s + 1,
                 student_answer := [],
                 is_current_problem_answered := False,
                 is_current_problem_correct := False,
                 feedback_message := [],
                 ai_explanation := [],
                 disable_answer_input := False,
                 disable_formula_dropdown := False\<rparr>"
  have inv1: "quiz_inv (?s1\<lparr>app_stage := Results\<rparr>)"
    using assms by (simp add: quiz_inv_def)
  show ?thesis
  proof (cases "problem_index ?s1 \<ge> total_problems_in_quiz ?s1")
    case True
    then have "go_to_next_problem_callback e s = Inr (?s1\<lparr>app_stage := Results\<rparr>)"
      by (simp add: go_to_next_problem_callback_def Let_def)
    with inv1 show ?thesis by simp
  next
    case False
    then have g: "go_to_next_problem_callback e s = load_current_problem_details e ?s1"
      by (simp add: go_to_next_problem_callback_def Let_def)
    have inv: "quiz_inv ?s1" using assms False by (simp add: quiz_inv_def)
    from quiz_inv_load_total[OF inv, of e] obtain s' where l: "load_current_problem_details e ?s1 = Inr s'" by blast
    from quiz_inv_load[OF inv l] load_frame(1,4)[OF l] g l show ?thesis by simp
  qed
qed

lemma quiz_inv_student_answer: "quiz_inv (s\<lparr>student_answer := txt\<rparr>) = quiz_inv s"
  by (simp add: quiz_inv_def)

lemma quiz_event_inv:
  assumes "quiz_inv s"
  shows "\<exists>s'. quiz_event e ev s = Inr s' \<and> quiz_inv s' \<and>
              current_score s \<le> current_score s' \<and>
              quiz_problems_list s' = quiz_problems_list s"
proof (cases "app_stage s = Quiz")
  case False
  with assms show ?thesis by (simp add: quiz_event_def)
next
  case True
  show ?thesis
  proof (cases ev)
    case NextProblem
    show ?thesis
    proof (cases "is_current_problem_answered s")
      case False
      with assms True NextProblem show ?thesis by (simp add: quiz_event_def)
    next
      case answered: True
      from go_to_next_inv[OF assms True answered, of e] obtain s1 where
        s1: "go_to_next_problem_callback e s = Inr s1" "quiz_inv s1"
            "current_score s1 = current_score s" "quiz_problems_list s1 = quiz_problems_list s" by blast
      from app_router_inv[OF s1(2), of e] obtain s2 where
        s2: "app_router e s1 = Inr s2" "quiz_inv s2"
            "current_score s2 = current_score s1" "quiz_problems_list s2 = quiz_problems_list s1" by blast
      from True NextProblem answered s1 s2 show ?thesis by (simp add: quiz_event_def)
    qed
  next
    case (SubmitAnswer ans)
    from app_router_inv[OF assms, of e] obtain s1 where
      s1: "app_router e s = Inr s1" "quiz_inv s1"
          "current_score s1 = current_score s" "quiz_problems_list s1 = quiz_problems_list s" by blast
    show ?thesis
    proof (cases "app_stage s1 \<noteq> Quiz \<or> is_current_problem_answered s1 \<or> no_smiles s1")
      case True
      with \<open>app_stage s = Quiz\<close> SubmitAnswer s1 show ?thesis by (simp add: quiz_event_def)
    next
      case False
      let ?t = "s1\<lparr>student_answer := (if disable_answer_input s1 then student_answer s1 else ans)\<rparr>"
      have "quiz_inv ?t" "app_stage ?t = Quiz" "\<not> is_current_problem_answered ?t"
        using False s1(2) by (simp_all add: quiz_inv_student_answer)
      from handle_inv[OF this, of e] obtain s2 reqs where
        s2: "handle_answer_submission_st e ?t = Inr (s2, reqs)" "quiz_inv s2"
            "current_score ?t \<le> current_score s2" "quiz_problems_list s2 = quiz_problems_list ?t" by blast
      from app_router_inv[OF s2(2), of e] obtain s3 where
        s3: "app_router e s2 = Inr s3" "quiz_inv s3"
            "current_score s3 = current_score s2" "quiz_problems_list s3 = quiz_problems_list s2" by blast
      from \<open>app_stage s = Quiz\<close> SubmitAnswer False s1 s2 s3 show ?thesis
        by (simp add: quiz_event_def)
    qed
  qed
qed

lemma quiz_events_inv:
  assumes "quiz_inv s"
  shows "\<exists>s'. quiz_events e evs s = Inr s' \<and> quiz_inv s' \<and>
              current_score s \<le> current_score s' \<and>
              quiz_problems_list s' = quiz_problems_list s"
  using assms
proof (induction evs arbitrary: s)
  case Nil
  then show ?case by simp
next
  case (Cons ev evs)
  from quiz_event_inv[OF Cons.prems, of e ev] obtain s1 where
    s1: "quiz_event e ev s = Inr s1" "quiz_inv s1"
        "current_score s \<le> current_score s1" "quiz_problems_list s1 = quiz_problems_list s" by blast
  from Cons.IH[OF s1(2)] obtain s2 where
    s2: "quiz_events e evs s1 = Inr s2" "quiz_inv s2"
        "current_score s1 \<le> current_score s2" "quiz_problems_list s2 = quiz_problems_list s1" by blast
  from s1 s2 show ?case by simp
qed

lemma quiz_events_append:
  "quiz_events e (evs1 @ evs2) s =
     (case quiz_events e evs1 s of Inl err \<Rightarrow> Inl err | Inr s1 \<Rightarrow> quiz_events e evs2 s1)"
  by (induction evs1 arbitrary: s) (auto split: sum.splits)

lemma setup_inv:
  assumes "setup_new_quiz_st e rnd cat s = Inr (Started, s')"
  shows "quiz_inv s'"
  using setup_started(2,3,4,5,6,7)[OF assms] quiz_sample_properties(1)[OF assms]
  by (cases "filtered_problems cat (selected_categories s) (selected_difficulties s)")
     (auto simp: quiz_inv_def)

lemma start_practice_inv:
  assumes "start_practice e rnd cat s = Inr (Started, s0)"
  shows "quiz_inv s0"
proof -
  from assms obtain s' where
    st: "setup_new_quiz_st e rnd cat s = Inr (Started, s')" and
    r: "app_router e s' = Inr s0"
    using setup_started(5)
    by (auto simp: start_practice_def split: sum.splits if_splits prod.splits)
  from app_router_inv[OF setup_inv[OF st], of e] r show ?thesis by simp
qed

lemma start_practice_succeeds:
  assumes "filtered_problems cat (selected_categories s) (selected_difficulties s) \<noteq> []"
    and "1 \<le> num_problems_requested s"
  shows "\<exists>s0. start_practice e rnd cat s = Inr (Started, s0)"
proof -
  from setup_succeeds[OF assms, of e rnd] obtain s' where
    st: "setup_new_quiz_st e rnd cat s = Inr (Started, s')" by blast
  from app_router_inv[OF setup_inv[OF st], of e] obtain s0 where "app_router e s' = Inr s0" by blast
  with st setup_started(5)[OF st] show ?thesis by (simp add: start_practice_def)
qed

text \<open>
  C5: from the session of a successful start, every sequence of submit and next
  operations of the quiz page runs without an exception; after any part of the sequence
  the score is at least 0, it is not lower after the rest of the sequence, and it is at
  most the length of the problem list, which the operations do not change. The
  operations are the page's: submit acts only while the problem is unanswered and has a
  structure, next only once it is answered, neither outside the quiz stage.
\<close>

theorem score_bounded_and_monotone:
  assumes "start_practice e rnd cat s = Inr (Started, s0)"
  shows "\<exists>s1 s2. quiz_events e evs1 s0 = Inr s1 \<and>
                quiz_events e (evs1 @ evs2) s0 = Inr s2 \<and>
                0 \<le> current_score s1 \<and>
                current_score s1 \<le> current_score s2 \<and>
                current_score s2 \<le> int (length (quiz_problems_list s2)) \<and>
                quiz_problems_list s2 = quiz_problems_list s0"
proof -
  have inv0: "quiz_inv s0" using assms by (rule start_practice_inv)
  from quiz_events_inv[OF inv0, of e evs1] obtain s1 where
    s1: "quiz_events e evs1 s0 = Inr s1" "quiz_inv s1"
        "current_score s0 \<le> current_score s1" "quiz_problems_list s1 = quiz_problems_list s0" by blast
  from quiz_events_inv[OF s1(2), of e evs2] obtain s2 where
    s2: "quiz_events e evs2 s1 = Inr s2" "quiz_inv s2"
        "current_score s1 \<le> current_score s2" "quiz_problems_list s2 = quiz_problems_list s1" by blast
  have "quiz_events e (evs1 @ evs2) s0 = Inr s2"
    using s1(1) s2(1) by (simp add: quiz_events_append)
  moreover have "0 \<le> current_score s1" using s1(2) by (simp add: quiz_inv_def)
  moreover have "current_score s2 \<le> int (length (quiz_problems_list s2))"
    using s2(2) by (simp add: quiz_inv_def)
  ultimately show ?thesis using s1 s2 by auto
qed


theorem score_bounded_and_monotone_witness:
  "\<exists>s0 s1 s2.
     start_practice example_env (\<lambda>i. 0) [example_problem] initial_session = Inr (Started, s0) \<and>
     quiz_events example_env [SubmitAnswer (str ''propan-2-ol'')] s0 = Inr s1 \<and>
     quiz_events example_env ([SubmitAnswer (str ''propan-2-ol'')] @ [NextProblem]) s0 = Inr s2 \<and>
     0 \<le> current_score s1 \<and>
     current_score s1 \<le> current_score s2 \<and>
     current_score s2 \<le> int (length (quiz_problems_list s2))"
proof -
  have 1: "filtered_problems [example_problem] (selected_categories initial_session)
             (selected_difficulties initial_session) \<noteq> []"
    by (simp add: initial_session_def filtered_problems_no_selection)
  have 2: "1 \<le> num_problems_requested initial_session"
    by (simp add: initial_session_def)
  from start_practice_succeeds[OF 1 2, of example_env "\<lambda>i. 0"] obtain s0 where
    s0: "start_practice example_env (\<lambda>i. 0) [example_problem] initial_session = Inr (Started, s0)"
    by blast
  from score_bounded_and_monotone[OF s0, of "[SubmitAnswer (str ''propan-2-ol'')]" "[NextProblem]"] s0
  show ?thesis by blast
qed

section \<open>Which lines of an explanation are retained\<close>

lemma comment_not_step: "is_comment l \<Longrightarrow> \<not> is_step l"
  by (cases l) (auto simp: is_comment_def is_step_def py_startswith_def)

lemma error_step_is_step: "is_error_step l \<Longrightarrow> is_step l"
  by (simp add: is_error_step_def is_step_def)

lemma scan_lines_Cons:
  "scan_lines b (l # ls) =
     (if is_error_step l then l # scan_lines True ls
      else if is_step l then scan_lines False ls
      else if is_comment l \<and> b then l # scan_lines b ls
      else scan_lines b ls)"
  by (simp add: is_error_step_def is_step_def is_comment_def)

lemma scan_lines_subseq: "subseq (scan_lines b ls) ls"
  by (induction ls arbitrary: b) (auto simp: scan_lines_Cons simp del: scan_lines.simps(2))

lemma scan_lines_errors: "filter is_error_step (scan_lines b ls) = filter is_error_step ls"
  by (induction ls arbitrary: b)
     (auto simp: scan_lines_Cons error_step_is_step simp del: scan_lines.simps(2) dest: comment_not_step)

lemma scan_lines_kinds: "l \<in> set (scan_lines b ls) \<Longrightarrow> is_error_step l \<or> is_comment l"
  by (induction ls arbitrary: b) (auto simp: scan_lines_Cons simp del: scan_lines.simps(2) split: if_splits)

lemma scan_lines_first: "scan_lines False ls \<noteq> [] \<Longrightarrow> is_error_step (hd (scan_lines False ls))"
  by (induction ls) (auto simp: scan_lines_Cons simp del: scan_lines.simps(2) split: if_splits)

lemma flag_after_Nil: "flag_after b [] = b"
  by (simp add: flag_after_def)

lemma flag_after_Cons:
  "flag_after b (l # ls) = flag_after (if is_step l then is_error_step l else b) ls"
  by (cases "rev (filter is_step ls)") (auto simp: flag_after_def)

lemma scan_lines_append:
  "scan_lines b (xs @ ys) = scan_lines b xs @ scan_lines (flag_after b xs) ys"
  by (induction xs arbitrary: b)
     (auto simp: scan_lines_Cons flag_after_Nil flag_after_Cons error_step_is_step simp del: scan_lines.simps(2))

lemma last_step_is_error_flag: "last_step_is_error ls = flag_after False ls"
  by (simp add: last_step_is_error_def flag_after_def)

lemma scan_lines_comment_position:
  assumes "is_comment c"
  shows "scan_lines False (pre @ c # post) =
           scan_lines False pre @ (if last_step_is_error pre then [c] else []) @
           scan_lines (last_step_is_error pre) post"
  using assms comment_not_step[OF assms] error_step_is_step[of c]
  by (auto simp: scan_lines_append scan_lines_Cons last_step_is_error_flag simp del: scan_lines.simps(2))

text \<open>
  C4, amended: the retained lines are, in their original order, all the incorrect-step
  lines and some comment lines, nothing else; a comment line is retained exactly when
  the last step line before it is an incorrect-step line, so several comment lines
  after one incorrect step are all retained; the first retained line is an
  incorrect-step line, so every retained comment has an incorrect-step line before it
  in the retained output with only comment lines in between.
\<close>

theorem retained_lines_characterised:
  "subseq (result_lines t) (processed_lines t) \<and>
   filter is_error_step (result_lines t) = filter is_error_step (processed_lines t) \<and>
   (\<forall>l \<in> set (result_lines t). is_error_step l \<or> is_comment l) \<and>
   (result_lines t \<noteq> [] \<longrightarrow> is_error_step (hd (result_lines t))) \<and>
   (\<forall>pre c post. processed_lines t = pre @ c # post \<and> is_comment c \<longrightarrow>
      (\<exists>r1 r2. subseq r1 pre \<and> subseq r2 post \<and>
         result_lines t = r1 @ (if last_step_is_error pre then [c] else []) @ r2))"
proof (intro conjI allI impI ballI)
  show "subseq (result_lines t) (processed_lines t)"
    by (simp add: result_lines_def scan_lines_subseq)
  show "filter is_error_step (result_lines t) = filter is_error_step (processed_lines t)"
    by (simp add: result_lines_def scan_lines_errors)
  show "is_error_step l \<or> is_comment l" if "l \<in> set (result_lines t)" for l
    using that scan_lines_kinds by (simp add: result_lines_def)
  show "is_error_step (hd (result_lines t))" if "result_lines t \<noteq> []"
    using that scan_lines_first by (simp add: result_lines_def)
  show "\<exists>r1 r2. subseq r1 pre \<and> subseq r2 post \<and>
         result_lines t = r1 @ (if last_step_is_error pre then [c] else []) @ r2"
    if "processed_lines t = pre @ c # post \<and> is_comment c" for pre c post
  proof (intro exI conjI)
    show "subseq (scan_lines False pre) pre" by (rule scan_lines_subseq)
    show "subseq (scan_lines (last_step_is_error pre) post) post" by (rule scan_lines_subseq)
    show "result_lines t = scan_lines False pre @ (if last_step_is_error pre then [c] else []) @
            scan_lines (last_step_is_error pre) post"
      using that scan_lines_comment_position[of c pre post] by (simp add: result_lines_def)
  qed
qed

lemmas line_eval = result_lines_def processed_lines_def processed_line_content_def strip_bullet_def
  py_strip_def py_isspace_def py_startswith_def py_endswith_def CROSS_MARK_def NEWLINE_def
  ASTERISK_def HYPHEN_def is_comment_def is_error_step_def

text \<open>
  C4, as stated, fails: the flag is not reset after a comment, so the second comment
  below is retained although the retained line right before it is a comment, not an
  incorrect-step line.
\<close>

theorem second_comment_retained:
  "result_lines (str ''Step 1 '' @ CROSS_MARK @ [NEWLINE] @ str ''Comment: a'' @ [NEWLINE] @ str ''Comment: b'')
     = [str ''Step 1 '' @ CROSS_MARK, str ''Comment: a'', str ''Comment: b''] \<and>
   is_comment (str ''Comment: b'') \<and>
   \<not> is_error_step (str ''Comment: a'')"
  by (simp add: line_eval)

theorem retained_lines_characterised_witness:
  "is_error_step (hd (result_lines (str ''Step 1 '' @ CROSS_MARK @ [NEWLINE] @ str ''Comment: a'' @ [NEWLINE] @ str ''Comment: b''))) \<and>
   (\<exists>r1 r2. subseq r1 [str ''Step 1 '' @ CROSS_MARK, str ''Comment: a''] \<and> subseq r2 [] \<and>
      result_lines (str ''Step 1 '' @ CROSS_MARK @ [NEWLINE] @ str ''Comment: a'' @ [NEWLINE] @ str ''Comment: b'')
        = r1 @ [str ''Comment: b''] @ r2)"
proof -
  let ?t = "str ''Step 1 '' @ CROSS_MARK @ [NEWLINE] @ str ''Comment: a'' @ [NEWLINE] @ str ''Comment: b''"
  let ?pre = "[str ''Step 1 '' @ CROSS_MARK, str ''Comment: a'']"
  have 1: "result_lines ?t \<noteq> []" by (simp add: line_eval)
  have 2: "processed_lines ?t = ?pre @ str ''Comment: b'' # [] \<and> is_comment (str ''Comment: b'')"
    by (simp add: line_eval)
  have 3: "last_step_is_error ?pre"
    by (simp add: last_step_is_error_def is_step_def line_eval)
  from retained_lines_characterised[of ?t] 1 have a: "is_error_step (hd (result_lines ?t))" by blast
  from retained_lines_characterised[of ?t] 2
  have "\<exists>r1 r2. subseq r1 ?pre \<and> subseq r2 [] \<and>
      result_lines ?t = r1 @ (if last_step_is_error ?pre then [str ''Comment: b''] else []) @ r2"
    by blast
  with 3 a show ?thesis by simp
qed

section \<open>Bullets and the output\<close>

lemma scan_lines_set: "set (scan_lines b ls) \<subseteq> set ls"
  by (induction ls arbitrary: b) (auto split: if_splits)

lemma scan_lines_empty_iff: "scan_lines False ls = [] \<longleftrightarrow> (\<forall>l \<in> set ls. \<not> is_error_step l)"
  by (induction ls) (auto simp: is_error_step_def)

lemma bullet_not_space: "b = ASTERISK \<or> b = HYPHEN \<Longrightarrow> \<not> py_isspace b"
  by (auto simp: ASTERISK_def HYPHEN_def py_isspace_def)

lemma py_strip_padded:
  assumes w1: "list_all py_isspace w1" and w3: "list_all py_isspace w3"
    and s: "s \<noteq> []" "\<not> py_isspace (hd s)" "\<not> py_isspace (last s)"
  shows "py_strip (w1 @ s @ w3) = s"
proof -
  have "dropWhile py_isspace (w1 @ s @ w3) = dropWhile py_isspace (s @ w3)"
    by (rule dropWhile_append2) (use w1 in \<open>auto simp: list_all_iff\<close>)
  also have "\<dots> = s @ w3" using s by (cases s) auto
  finally have 1: "dropWhile py_isspace (w1 @ s @ w3) = s @ w3" .
  have h: "rev s \<noteq> []" "\<not> py_isspace (hd (rev s))" using s by (simp_all add: hd_rev)
  have "dropWhile py_isspace (rev w3 @ rev s) = dropWhile py_isspace (rev s)"
    by (rule dropWhile_append2) (use w3 in \<open>auto simp: list_all_iff\<close>)
  also have "\<dots> = rev s" using h by (cases "rev s") auto
  finally have 2: "dropWhile py_isspace (rev w3 @ rev s) = rev s" .
  show ?thesis by (simp add: py_strip_def 1 2)
qed

lemma processed_bulleted_line:
  assumes w1: "list_all py_isspace w1" and w2: "list_all py_isspace w2" and w3: "list_all py_isspace w3"
    and b: "b = ASTERISK \<or> b = HYPHEN"
    and body: "body = [] \<or> (\<not> py_isspace (hd body) \<and> \<not> py_isspace (last body))"
  shows "processed_line_content (w1 @ b # w2 @ body @ w3) = body"
proof (cases "body = []")
  case True
  have "list_all py_isspace (w2 @ w3)" using w2 w3 by simp
  from py_strip_padded[OF w1 this, of "[b]"] bullet_not_space[OF b]
  have "py_strip (w1 @ b # w2 @ w3) = [b]" by simp
  with True b show ?thesis
    by (auto simp: processed_line_content_def strip_bullet_def)
next
  case False
  let ?s = "b # w2 @ body"
  from False body have nb: "\<not> py_isspace (hd body)" "\<not> py_isspace (last body)" by auto
  have "py_strip (w1 @ ?s @ w3) = ?s"
    by (rule py_strip_padded[OF w1 w3]) (use False nb bullet_not_space[OF b] in simp_all)
  then have "py_strip (w1 @ b # w2 @ body @ w3) = ?s" by simp
  moreover have "dropWhile py_isspace (w2 @ body) = body"
  proof -
    have "dropWhile py_isspace (w2 @ body) = dropWhile py_isspace body"
      by (rule dropWhile_append2) (use w2 in \<open>auto simp: list_all_iff\<close>)
    also have "\<dots> = body" using nb(1) False by (cases body) auto
    finally show ?thesis .
  qed
  ultimately show ?thesis using b
    by (auto simp: processed_line_content_def strip_bullet_def)
qed

lemma processed_plain_line:
  assumes w1: "list_all py_isspace w1" and w3: "list_all py_isspace w3"
    and body: "body \<noteq> []" "\<not> py_isspace (hd body)" "\<not> py_isspace (last body)"
    and nb: "hd body \<noteq> ASTERISK" "hd body \<noteq> HYPHEN"
  shows "processed_line_content (w1 @ body @ w3) = body"
  using py_strip_padded[OF w1 w3 body] body(1) nb
  by (cases body) (simp_all add: processed_line_content_def strip_bullet_def)

lemma retained_no_bullet:
  assumes "is_error_step l \<or> is_comment l"
  shows "\<not> py_startswith l [ASTERISK] \<and> \<not> py_startswith l [HYPHEN]"
  using assms
  by (cases l) (auto simp: is_error_step_def is_comment_def py_startswith_def ASTERISK_def HYPHEN_def)

lemma py_replace_single:
  "py_replace [x] new l = concat (map (\<lambda>c. if c = x then new else [c]) l)"
  by (induction l) (auto simp: py_startswith_def)

lemma html_list_item_marked: "html_list_item l = str ''<li>'' @ marked l @ str ''</li>''"
proof -
  have "py_replace CHECK_MARK (CHECK_MARK @ str '' (Correct)'')
          (py_replace CROSS_MARK (CROSS_MARK @ str '' (Incorrect)'') l) = marked l"
    unfolding CROSS_MARK_def CHECK_MARK_def marked_def py_replace_single
    by (induction l) (simp_all add: py_replace_single)
  then show ?thesis by (simp add: html_list_item_def)
qed

lemma marked_plain: "\<forall>c\<in>set l. c \<noteq> 10060 \<and> c \<noteq> 9989 \<Longrightarrow> marked l = l"
  by (induction l) (auto simp: marked_def CROSS_MARK_def CHECK_MARK_def)

lemma marked_append: "marked (xs @ ys) = marked xs @ marked ys"
  by (simp add: marked_def)

lemma marked_cross: "marked CROSS_MARK = CROSS_MARK @ str '' (Incorrect)''"
  by (simp add: marked_def CROSS_MARK_def)

lemma item_in_output:
  assumes "l \<in> set rl"
  shows "sublist (f l) (pre @ concat (map f rl) @ post)"
proof -
  from assms obtain xs ys where "rl = xs @ l # ys" by (auto simp: in_set_conv_decomp)
  then have "pre @ concat (map f rl) @ post = (pre @ concat (map f xs)) @ f l @ (concat (map f ys) @ post)"
    by simp
  then show ?thesis unfolding sublist_def by blast
qed

lemma extract_output:
  "extract_error_steps_and_comments t =
     (if result_lines t = [] then []
      else str ''<ul>'' @ concat (map (\<lambda>l. str ''<li>'' @ marked l @ str ''</li>'') (result_lines t)) @ str ''</ul>'')"
  by (simp add: extract_error_steps_and_comments_def Let_def html_list_item_marked[abs_def])


text \<open>
  C10, as stated, fails: the bullet need not be followed by white space. The line below
  starts with a hyphen and no space; the hyphen is stripped all the same, and the line
  is retained as an incorrect step.
\<close>

theorem bare_bullet_stripped:
  "processed_line_content (str ''-Step 1 '' @ CROSS_MARK) = str ''Step 1 '' @ CROSS_MARK \<and>
   result_lines (str ''-Step 1 '' @ CROSS_MARK) = [str ''Step 1 '' @ CROSS_MARK] \<and>
   extract_error_steps_and_comments (str ''-Step 1 '' @ CROSS_MARK)
     = str ''<ul><li>Step 1 '' @ CROSS_MARK @ str '' (Incorrect)</li></ul>''"
  by (simp add: extract_error_steps_and_comments_def html_list_item_def CHECK_MARK_def line_eval)

text \<open>
  C10, amended: the content on which a line is classified is the line without its
  surrounding white space and without one leading \<open>*\<close> or \<open>-\<close> and the white space
  after it, if there is any, so a bulleted line is classified as its body; every
  retained line is such a content, is an incorrect-step or a comment line, does not
  start with a bullet, and stands in the output as a list item, with the word after
  each marker; the output is the HTML list of these items, and it is the empty string
  exactly when no line is an incorrect-step line.
\<close>

theorem bullets_stripped_before_classifying:
  "(list_all py_isspace w1 \<and> list_all py_isspace w2 \<and> list_all py_isspace w3 \<and>
    (b = ASTERISK \<or> b = HYPHEN) \<and>
    (body = [] \<or> (\<not> py_isspace (hd body) \<and> \<not> py_isspace (last body)))
      \<longrightarrow> processed_line_content (w1 @ b # w2 @ body @ w3) = body) \<and>
   (\<forall>l \<in> set (result_lines t).
      l \<in> processed_line_content ` set (py_split NEWLINE (py_strip t)) \<and>
      (is_error_step l \<or> is_comment l) \<and>
      \<not> py_startswith l [ASTERISK] \<and> \<not> py_startswith l [HYPHEN] \<and>
      sublist (str ''<li>'' @ marked l @ str ''</li>'') (extract_error_steps_and_comments t)) \<and>
   extract_error_steps_and_comments t =
     (if result_lines t = [] then []
      else str ''<ul>'' @
           concat (map (\<lambda>l. str ''<li>'' @ marked l @ str ''</li>'') (result_lines t)) @
           str ''</ul>'') \<and>
   (extract_error_steps_and_comments t = [] \<longleftrightarrow>
      (\<forall>line \<in> set (py_split NEWLINE (py_strip t)). \<not> is_error_step (processed_line_content line))) \<and>
   ((\<forall>c \<in> set plain. c \<noteq> 10060 \<and> c \<noteq> 9989) \<longrightarrow>
      marked plain = plain \<and>
      marked (plain @ CROSS_MARK) = plain @ CROSS_MARK @ str '' (Incorrect)'')"
proof (intro conjI impI ballI)
  assume "list_all py_isspace w1 \<and> list_all py_isspace w2 \<and> list_all py_isspace w3 \<and>
    (b = ASTERISK \<or> b = HYPHEN) \<and>
    (body = [] \<or> (\<not> py_isspace (hd body) \<and> \<not> py_isspace (last body)))"
  then show "processed_line_content (w1 @ b # w2 @ body @ w3) = body"
    using processed_bulleted_line by blast
next
  fix l assume l: "l \<in> set (result_lines t)"
  then show "l \<in> processed_line_content ` set (py_split NEWLINE (py_strip t))"
    using scan_lines_set[of False "processed_lines t"]
    by (auto simp: result_lines_def processed_lines_def)
  from l show k: "is_error_step l \<or> is_comment l"
    using scan_lines_kinds by (simp add: result_lines_def)
  from retained_no_bullet[OF k]
  show "\<not> py_startswith l [ASTERISK]" and "\<not> py_startswith l [HYPHEN]" by simp_all
  from l have ne: "result_lines t \<noteq> []" by auto
  have eq: "extract_error_steps_and_comments t =
              str ''<ul>'' @
              concat (map (\<lambda>l. str ''<li>'' @ marked l @ str ''</li>'') (result_lines t)) @
              str ''</ul>''"
    using ne extract_output[of t] by (simp only: if_False)
  show "sublist (str ''<li>'' @ marked l @ str ''</li>'') (extract_error_steps_and_comments t)"
    unfolding eq
    by (rule item_in_output[OF l, where f = "\<lambda>l. str ''<li>'' @ marked l @ str ''</li>''"])
next
  show "extract_error_steps_and_comments t =
     (if result_lines t = [] then []
      else str ''<ul>'' @
           concat (map (\<lambda>l. str ''<li>'' @ marked l @ str ''</li>'') (result_lines t)) @
           str ''</ul>'')"
    by (rule extract_output)
next
  show "extract_error_steps_and_comments t = [] \<longleftrightarrow>
      (\<forall>line \<in> set (py_split NEWLINE (py_strip t)). \<not> is_error_step (processed_line_content line))"
    by (simp add: extract_error_steps_and_comments_def Let_def result_lines_def
        scan_lines_empty_iff processed_lines_def)
next
  assume p: "\<forall>c \<in> set plain. c \<noteq> 10060 \<and> c \<noteq> 9989"
  then show "marked plain = plain" by (rule marked_plain)
  then show "marked (plain @ CROSS_MARK) = plain @ CROSS_MARK @ str '' (Incorrect)''"
    by (simp add: marked_append marked_cross)
qed

theorem bullets_stripped_before_classifying_witness:
  "processed_line_content (str ''  '' @ ASTERISK # str '' '' @ (str ''Step 2: number the chain '' @ CROSS_MARK) @ str '' '')
     = str ''Step 2: number the chain '' @ CROSS_MARK \<and>
   extract_error_steps_and_comments
     (str ''* Step 1: chain '' @ CROSS_MARK @ [NEWLINE] @ str ''  - Comment: longest chain'')
     = str ''<ul><li>Step 1: chain '' @ CROSS_MARK @ str '' (Incorrect)</li><li>Comment: longest chain</li></ul>''"
proof -
  let ?t = "str ''* Step 1: chain '' @ CROSS_MARK @ [NEWLINE] @ str ''  - Comment: longest chain''"
  have "list_all py_isspace (str ''  '') \<and> list_all py_isspace (str '' '') \<and> list_all py_isspace (str '' '') \<and>
    (ASTERISK = ASTERISK \<or> ASTERISK = HYPHEN) \<and>
    (str ''Step 2: number the chain '' @ CROSS_MARK = [] \<or>
      (\<not> py_isspace (hd (str ''Step 2: number the chain '' @ CROSS_MARK)) \<and>
       \<not> py_isspace (last (str ''Step 2: number the chain '' @ CROSS_MARK))))"
    by (simp add: py_isspace_def CROSS_MARK_def)
  with bullets_stripped_before_classifying[of "str ''  ''" "str '' ''" "str '' ''" ASTERISK "str ''Step 2: number the chain '' @ CROSS_MARK" "[]"]
  have a: "processed_line_content (str ''  '' @ ASTERISK # str '' '' @ (str ''Step 2: number the chain '' @ CROSS_MARK) @ str '' '')
     = str ''Step 2: number the chain '' @ CROSS_MARK" by blast
  have r: "result_lines ?t = [str ''Step 1: chain '' @ CROSS_MARK, str ''Comment: longest chain'']"
    by (simp add: line_eval)
  from bullets_stripped_before_classifying[of "[]" "[]" "[]" ASTERISK "[]" ?t]
  have "extract_error_steps_and_comments ?t =
     (if result_lines ?t = [] then []
      else str ''<ul>'' @
           concat (map (\<lambda>l. str ''<li>'' @ marked l @ str ''</li>'') (result_lines ?t)) @
           str ''</ul>'')" by blast
  then have "extract_error_steps_and_comments ?t
     = str ''<ul><li>Step 1: chain '' @ CROSS_MARK @ str '' (Incorrect)</li><li>Comment: longest chain</li></ul>''"
    unfolding r by (simp add: marked_def CROSS_MARK_def CHECK_MARK_def)
  with a show ?thesis by simp
qed

end
